theory Spec2Isabelle
  imports Main "HOL-Library.Sublist"
begin

section \<open>JavaScript values used by the pipeline\<close>

text \<open>
  A thrown JavaScript \<^verbatim>\<open>Error\<close> is represented by its message; its name is taken to be
  \<^verbatim>\<open>Error\<close>, as for the errors the code itself throws. Optional values
  (\<^verbatim>\<open>undefined\<close>, \<^verbatim>\<open>null\<close>) are \<open>option\<close>s. The embedding vector is a list of numbers
  that the code only passes on, never computes with.
\<close>

type_synonym error = string
type_synonym vector = "int list"

definition dq :: string where
  "dq = [CHR 0x22]"

definition apos :: string where
  "apos = [CHR 0x27]"

text \<open>\<^verbatim>\<open>if (s)\<close> on an optional string: \<^verbatim>\<open>undefined\<close>, \<^verbatim>\<open>null\<close> and \<^verbatim>\<open>''\<close> are falsy.\<close>

fun truthy :: "string option \<Rightarrow> bool" where
  "truthy None = False"
| "truthy (Some s) = (s \<noteq> [])"

text \<open>\<^verbatim>\<open>String.prototype.split\<close> with a one-character separator.\<close>

fun split_on :: "char \<Rightarrow> string \<Rightarrow> string list" where
  "split_on d [] = [[]]"
| "split_on d (c # cs) =
     (if c = d then [] # split_on d cs
      else (case split_on d cs of
              [] \<Rightarrow> [[c]]
            | s # ss \<Rightarrow> (c # s) # ss))"

text \<open>\<^verbatim>\<open>Array.prototype.join\<close>.\<close>

fun join :: "string \<Rightarrow> string list \<Rightarrow> string" where
  "join sep [] = []"
| "join sep [x] = x"
| "join sep (x # y # ys) = x @ sep @ join sep (y # ys)"

text \<open>\<^verbatim>\<open>String.prototype.includes\<close>.\<close>

fun starts_with :: "string \<Rightarrow> string \<Rightarrow> bool" where
  "starts_with [] s = True"
| "starts_with (p # ps) [] = False"
| "starts_with (p # ps) (c # cs) = (p = c \<and> starts_with ps cs)"

fun includes_str :: "string \<Rightarrow> string \<Rightarrow> bool" where
  "includes_str p [] = (p = [])"
| "includes_str p (c # cs) = (starts_with p (c # cs) \<or> includes_str p cs)"

text \<open>\<^verbatim>\<open>Error.prototype.toString\<close>.\<close>

definition error_toString :: "error \<Rightarrow> string" where
  "error_toString e = ''Error: '' @ e"

section \<open>Data model\<close>

text \<open>A chunk handed to \<^verbatim>\<open>insertEmbeddings\<close>: \<^verbatim>\<open>{pageContent, metadata: {chunk_id}}\<close>.\<close>

record doc =
  pageContent :: string
  chunk_id :: nat

text \<open>The row \<^verbatim>\<open>insertEmbeddings\<close> sends to \<^verbatim>\<open>client.insert\<close>.\<close>

record entity =
  e_text :: string
  e_embedding :: vector
  e_chunk_id :: nat
  e_meta_subjectId :: "string option"
  e_meta_dataSourceId :: string
  user_id :: string
  subject_id :: string
  data_source_id :: string

record search_request =
  sr_vector :: vector
  sr_limit :: nat
  sr_filter :: string

text \<open>One entry of \<^verbatim>\<open>searchResults.results\<close>, and what \<^verbatim>\<open>searchMilvus\<close> returns for it.\<close>

record raw_hit =
  r_id :: int
  r_text :: string
  r_score :: int
  r_metadata :: string

record hit =
  h_text :: string
  h_score :: int
  h_metadata :: string

record search_options =
  topK :: "nat option"
  subjectId :: "string option"
  dataSourceIds :: "string list option"

datatype DataSourceStatus = PROCESSING | COMPLETED | ERROR | READY

text \<open>The \<^verbatim>\<open>data\<close> of one applied \<^verbatim>\<open>db.dataSource.update\<close>.\<close>

record db_write =
  dw_id :: string
  dw_content :: string
  dw_status :: DataSourceStatus

text \<open>A candidate of a \<^verbatim>\<open>generateContent\<close> response: its \<^verbatim>\<open>content\<close>, when present, as the
  texts of its parts.\<close>

type_synonym candidate = "string list option"

section \<open>The outside world\<close>

text \<open>
  Every request the code sends to a collaborator (the Milvus client, the prediction
  service, the generative model, Prisma, the file system) is recorded in a log, and the
  answer comes from an oracle indexed by the number of requests made so far, so that
  the same request may succeed once and fail the next time.
\<close>

datatype call =
    ShowCollections
  | LoadCollection
  | CreateCollection
  | DescribeIndex
  | CreateIndex
  | DropIndex
  | Insert entity
  | Search search_request
  | DeleteEntities string
  | Predict "string list"
  | ReadFile string
  | ExtractGenerate string
  | FindUnique string
  | FindMany string string
  | Update db_write
  | AnswerGenerate string
  | ConsoleLog string

record world =
  clock :: nat
  log :: "call list"
  chunks :: "entity list"
  db_writes :: "db_write list"

text \<open>
  The answers of the collaborators. \<open>Inl\<close> is a thrown error. \<open>showCollections_r\<close> gives the
  names of the collections and \<open>describeIndex_r\<close> the field names of the index descriptions.
  \<open>search_r\<close> gives \<open>None\<close> for a falsy response and otherwise its \<^verbatim>\<open>results\<close>. \<open>predict_r\<close>
  gives the embedding of each prediction of the response; a malformed response is a thrown
  error. \<open>findUnique_r\<close> gives \<open>None\<close> for \<^verbatim>\<open>null\<close> and otherwise the nullable
  \<^verbatim>\<open>subjectId\<close> of the row; \<open>findMany_r\<close> gives the ids of the rows. \<open>extract_model\<close> and
  \<open>query_model\<close> say whether the module-level \<^verbatim>\<open>generativeModel\<close> of \<^verbatim>\<open>gemini.service.ts\<close> and
  of \<^verbatim>\<open>query.handler.ts\<close> was initialised; a \<^verbatim>\<open>generateContent\<close> response is \<open>None\<close> when it
  has no \<^verbatim>\<open>candidates\<close>. \<open>splitter\<close> is \<^verbatim>\<open>createDocuments\<close> of the
  \<^verbatim>\<open>RecursiveCharacterTextSplitter\<close> of \<^verbatim>\<open>@langchain/textsplitters\<close> with chunk size 2000,
  overlap 200 and the separators of \<^verbatim>\<open>processFileAsync\<close>: a library outside the repository.
\<close>

record env =
  showCollections_r :: "nat \<Rightarrow> error + string list"
  loadCollection_r :: "nat \<Rightarrow> error + unit"
  createCollection_r :: "nat \<Rightarrow> error + unit"
  describeIndex_r :: "nat \<Rightarrow> error + string list"
  createIndex_r :: "nat \<Rightarrow> error + unit"
  dropIndex_r :: "nat \<Rightarrow> error + unit"
  insert_r :: "nat \<Rightarrow> entity \<Rightarrow> error + unit"
  search_r :: "nat \<Rightarrow> search_request \<Rightarrow> error + raw_hit list option"
  deleteEntities_r :: "nat \<Rightarrow> string \<Rightarrow> error + unit"
  predict_r :: "nat \<Rightarrow> string list \<Rightarrow> error + vector list"
  readFile_r :: "nat \<Rightarrow> string \<Rightarrow> error + string"
  extract_model :: bool
  extract_generate_r :: "nat \<Rightarrow> string \<Rightarrow> error + candidate list option"
  splitter :: "string \<Rightarrow> string list"
  findUnique_r :: "nat \<Rightarrow> string \<Rightarrow> error + string option option"
  findMany_r :: "nat \<Rightarrow> string \<Rightarrow> string \<Rightarrow> error + string list"
  update_r :: "nat \<Rightarrow> db_write \<Rightarrow> error + unit"
  query_model :: bool
  answer_generate_r :: "nat \<Rightarrow> string \<Rightarrow> error + candidate list option"

type_synonym 'a io = "world \<Rightarrow> (error + 'a) \<times> world"

definition io_return :: "'a \<Rightarrow> 'a io" where
  "io_return x w = (Inr x, w)"

definition io_throw :: "error \<Rightarrow> 'a io" where
  "io_throw e w = (Inl e, w)"

definition io_bind :: "'a io \<Rightarrow> ('a \<Rightarrow> 'b io) \<Rightarrow> 'b io" where
  "io_bind m f w = (case m w of (Inl e, w') \<Rightarrow> (Inl e, w') | (Inr x, w') \<Rightarrow> f x w')"

text \<open>\<^verbatim>\<open>try { m } catch (e) { h e }\<close>.\<close>

definition io_catch :: "'a io \<Rightarrow> (error \<Rightarrow> 'a io) \<Rightarrow> 'a io" where
  "io_catch m h w = (case m w of (Inl e, w') \<Rightarrow> h e w' | (Inr x, w') \<Rightarrow> (Inr x, w'))"

definition tick :: "call \<Rightarrow> world \<Rightarrow> world" where
  "tick c w = w\<lparr>clock := Suc (clock w), log := log w @ [c]\<rparr>"

text \<open>A request without an effect on the stored data.\<close>

definition request :: "call \<Rightarrow> (nat \<Rightarrow> error + 'a) \<Rightarrow> 'a io" where
  "request c answer w = (answer (clock w), tick c w)"

definition console_log :: "string \<Rightarrow> unit io" where
  "console_log s w = (Inr (), w\<lparr>log := log w @ [ConsoleLog s]\<rparr>)"

definition client_showCollections :: "env \<Rightarrow> string list io" where
  "client_showCollections env = request ShowCollections (showCollections_r env)"

definition client_loadCollection :: "env \<Rightarrow> unit io" where
  "client_loadCollection env = request LoadCollection (loadCollection_r env)"

definition client_createCollection :: "env \<Rightarrow> unit io" where
  "client_createCollection env = request CreateCollection (createCollection_r env)"

definition client_describeIndex :: "env \<Rightarrow> string list io" where
  "client_describeIndex env = request DescribeIndex (describeIndex_r env)"

definition client_createIndex :: "env \<Rightarrow> unit io" where
  "client_createIndex env = request CreateIndex (createIndex_r env)"

definition client_dropIndex :: "env \<Rightarrow> unit io" where
  "client_dropIndex env = request DropIndex (dropIndex_r env)"

definition client_search :: "env \<Rightarrow> search_request \<Rightarrow> raw_hit list option io" where
  "client_search env r = request (Search r) (\<lambda>n. search_r env n r)"

text \<open>A successful insert appends the row to the collection; a failed one leaves it as it was.\<close>

definition client_insert :: "env \<Rightarrow> entity \<Rightarrow> unit io" where
  "client_insert env e w =
     (case insert_r env (clock w) e of
        Inl err \<Rightarrow> (Inl err, tick (Insert e) w)
      | Inr u \<Rightarrow> (Inr u, (tick (Insert e) w)\<lparr>chunks := chunks w @ [e]\<rparr>))"

text \<open>A successful delete removes the rows the filter selects; \<open>sel\<close> is the store's
  reading of the filter string.\<close>

definition client_deleteEntities :: "env \<Rightarrow> string \<Rightarrow> (entity \<Rightarrow> bool) \<Rightarrow> unit io" where
  "client_deleteEntities env flt sel w =
     (case deleteEntities_r env (clock w) flt of
        Inl err \<Rightarrow> (Inl err, tick (DeleteEntities flt) w)
      | Inr u \<Rightarrow> (Inr u, (tick (DeleteEntities flt) w)\<lparr>chunks := filter (\<lambda>e. \<not> sel e) (chunks w)\<rparr>))"

definition predict :: "env \<Rightarrow> string list \<Rightarrow> vector list io" where
  "predict env instances = request (Predict instances) (\<lambda>n. predict_r env n instances)"

definition db_update :: "env \<Rightarrow> db_write \<Rightarrow> unit io" where
  "db_update env d w =
     (case update_r env (clock w) d of
        Inl err \<Rightarrow> (Inl err, tick (Update d) w)
      | Inr u \<Rightarrow> (Inr u, (tick (Update d) w)\<lparr>db_writes := db_writes w @ [d]\<rparr>))"

definition db_findUnique :: "env \<Rightarrow> string \<Rightarrow> string option option io" where
  "db_findUnique env i = request (FindUnique i) (\<lambda>n. findUnique_r env n i)"

definition db_findMany :: "env \<Rightarrow> string \<Rightarrow> string \<Rightarrow> string list io" where
  "db_findMany env u s = request (FindMany u s) (\<lambda>n. findMany_r env n u s)"

section \<open>services/gemini.service.ts\<close>

text \<open>\<^verbatim>\<open>getEmbeddings\<close>: one instance per \<^verbatim>\<open>;\<close>-separated segment, \<^verbatim>\<open>embeddings[0]\<close> returned
  (\<^verbatim>\<open>undefined\<close> when there is no prediction).\<close>

definition getEmbeddings :: "env \<Rightarrow> string \<Rightarrow> vector option io" where
  "getEmbeddings env texts =
     io_bind (predict env (split_on CHR '';'' texts)) (\<lambda>embeddings.
       io_return (case embeddings of [] \<Rightarrow> None | v # _ \<Rightarrow> Some v))"

section \<open>services/milvus.ts\<close>

definition COLLECTION_NAME :: string where
  "COLLECTION_NAME = ''learnability_sources''"


text \<open>The early \<^verbatim>\<open>return\<close> inside the inner \<^verbatim>\<open>try\<close> is the flag \<open>found\<close>.\<close>

definition createIndex :: "env \<Rightarrow> unit io" where
  "createIndex env =
     io_catch
       (io_bind (client_showCollections env) (\<lambda>collections.
          if COLLECTION_NAME \<notin> set collections then io_return ()
          else
            io_bind
              (io_catch
                 (io_bind (client_describeIndex env) (\<lambda>index_descriptions.
                    io_return (''embedding'' \<in> set index_descriptions)))
                 (\<lambda>error. io_return False))
              (\<lambda>found. if found then io_return () else client_createIndex env)))
       (\<lambda>error. io_throw error)"



definition deleteEmbeddingsByDataSource :: "env \<Rightarrow> string \<Rightarrow> unit io" where
  "deleteEmbeddingsByDataSource env dataSourceId =
     io_catch
       (io_bind (client_loadCollection env) (\<lambda>_.
          client_deleteEntities env (''data_source_id == '' @ dq @ dataSourceId @ dq)
            (\<lambda>e. data_source_id e = dataSourceId)))
       (\<lambda>error. io_return ())"

definition deleteEmbeddingsBySubject :: "env \<Rightarrow> string \<Rightarrow> unit io" where
  "deleteEmbeddingsBySubject env sid =
     io_catch
       (io_bind (client_loadCollection env) (\<lambda>_.
          client_deleteEntities env (''subject_id == '' @ dq @ sid @ dq)
            (\<lambda>e. subject_id e = sid)))
       (\<lambda>error. io_return ())"

text \<open>\<^verbatim>\<open>searchMilvus\<close>, lines 99 to 106: the filter string.\<close>

definition build_filter :: "string \<Rightarrow> search_options \<Rightarrow> string" where
  "build_filter userId options =
     (let flt = ''user_id == '' @ dq @ userId @ dq in
      case dataSourceIds options of
        Some (i # ids) \<Rightarrow>
          flt @ '' && ('' @ join '' || '' (map (\<lambda>id. ''data_source_id == '' @ dq @ id @ dq) (i # ids)) @ '')''
      | _ \<Rightarrow>
          (case subjectId options of
             Some s \<Rightarrow> if s \<noteq> [] then flt @ '' && subject_id == '' @ dq @ s @ dq else flt
           | None \<Rightarrow> flt))"

definition to_hit :: "raw_hit \<Rightarrow> hit" where
  "to_hit r = \<lparr>h_text = r_text r, h_score = r_score r, h_metadata = r_metadata r\<rparr>"

definition has_ids :: "search_options \<Rightarrow> bool" where
  "has_ids options = (case dataSourceIds options of Some (i # ids) \<Rightarrow> True | _ \<Rightarrow> False)"

definition topK_of :: "search_options \<Rightarrow> nat" where
  "topK_of options = (case topK options of None \<Rightarrow> 2 | Some n \<Rightarrow> n)"

definition fallback_message :: string where
  "fallback_message =
     ''[MilvusService] Falling back to subject-based search as dataSource search yielded no results.''"

text \<open>\<^verbatim>\<open>searchMilvus\<close>, lines 81 to 88: the \<^verbatim>\<open>try\<close> around \<^verbatim>\<open>loadCollection\<close>.\<close>

definition try_load :: "env \<Rightarrow> bool io" where
  "try_load env =
     io_catch (io_bind (client_loadCollection env) (\<lambda>_. io_return True))
       (\<lambda>error. io_return False)"

definition hits_of :: "raw_hit list option \<Rightarrow> hit list" where
  "hits_of searchResults =
     (case searchResults of None \<Rightarrow> [] | Some results \<Rightarrow> map to_hit results)"

definition no_results :: "raw_hit list option \<Rightarrow> bool" where
  "no_results searchResults =
     (case searchResults of None \<Rightarrow> True | Some results \<Rightarrow> results = [])"

text \<open>\<^verbatim>\<open>searchMilvus\<close>, lines 137 to 167: the \<^verbatim>\<open>catch\<close> of the search, which rebuilds a
  missing index and searches once more with the same request.\<close>

definition on_search_error :: "env \<Rightarrow> search_request \<Rightarrow> error \<Rightarrow> hit list io" where
  "on_search_error env req error =
     (if includes_str ''IndexNotExist'' (error_toString error) then
        io_bind (createIndex env) (\<lambda>_.
          io_catch
            (io_bind (client_search env req) (\<lambda>searchResults.
               if no_results searchResults then io_return []
               else io_return (hits_of searchResults)))
            (\<lambda>retryError. io_return []))
      else io_return [])"

text \<open>The default \<^verbatim>\<open>options = {}\<close> is the record of three \<open>None\<close>s; \<^verbatim>\<open>topK\<close> defaults to
  2. The fallback calls \<^verbatim>\<open>searchMilvus\<close> again with \<^verbatim>\<open>{ topK, subjectId }\<close>.\<close>

function searchMilvus :: "env \<Rightarrow> string \<Rightarrow> string \<Rightarrow> search_options \<Rightarrow> hit list io" where
  "searchMilvus env queryText userId options =
     io_catch
       (io_bind (client_showCollections env) (\<lambda>collections.
          if COLLECTION_NAME \<notin> set collections then io_return []
          else
            io_bind (try_load env) (\<lambda>loaded.
              if \<not> loaded then io_return []
              else
                io_bind (getEmbeddings env queryText) (\<lambda>queryEmbedding.
                  case queryEmbedding of
                    None \<Rightarrow> io_return []
                  | Some v \<Rightarrow>
                      io_catch
                        (io_bind
                           (client_search env
                              \<lparr>sr_vector = v, sr_limit = topK_of options,
                               sr_filter = build_filter userId options\<rparr>)
                           (\<lambda>searchResults.
                              if no_results searchResults then
                                (if has_ids options \<and> truthy (subjectId options) then
                                   io_bind (console_log fallback_message) (\<lambda>_.
                                     searchMilvus env queryText userId
                                       \<lparr>topK = Some (topK_of options),
                                        subjectId = subjectId options,
                                        dataSourceIds = None\<rparr>)
                                 else io_return [])
                              else io_return (hits_of searchResults)))
                        (on_search_error env
                           \<lparr>sr_vector = v, sr_limit = topK_of options,
                            sr_filter = build_filter userId options\<rparr>)))))
       (\<lambda>error. io_return [])"
  by pat_completeness auto
termination
  by (relation "measure (\<lambda>(env, q, u, options). if has_ids options then 1 else 0)")
    (auto simp: has_ids_def)

declare searchMilvus.simps [simp del]

record insert_meta =
  im_subjectId :: "string option"
  im_dataSourceId :: string

text \<open>The row built for one chunk.\<close>

definition make_entity :: "doc \<Rightarrow> vector \<Rightarrow> string \<Rightarrow> insert_meta \<Rightarrow> entity" where
  "make_entity d embedding userId metadata =
     \<lparr>e_text = pageContent d,
      e_embedding = embedding,
      e_chunk_id = chunk_id d,
      e_meta_subjectId = (if truthy (im_subjectId metadata) then im_subjectId metadata else None),
      e_meta_dataSourceId = im_dataSourceId metadata,
      user_id = userId,
      subject_id = (case im_subjectId metadata of None \<Rightarrow> [] | Some s \<Rightarrow> s),
      data_source_id = im_dataSourceId metadata\<rparr>"

text \<open>The \<^verbatim>\<open>for\<close> loop of \<^verbatim>\<open>insertEmbeddings\<close>: \<^verbatim>\<open>continue\<close> on a missing embedding, one
  \<^verbatim>\<open>client.insert\<close> per embedded chunk, the first exception ends the loop.\<close>

fun insert_loop :: "env \<Rightarrow> doc list \<Rightarrow> string \<Rightarrow> insert_meta \<Rightarrow> unit io" where
  "insert_loop env [] userId metadata = io_return ()"
| "insert_loop env (d # documents) userId metadata =
     io_bind (getEmbeddings env (pageContent d)) (\<lambda>embedding.
       case embedding of
         None \<Rightarrow> insert_loop env documents userId metadata
       | Some v \<Rightarrow>
           io_bind (client_insert env (make_entity d v userId metadata)) (\<lambda>_.
             insert_loop env documents userId metadata))"

definition insertEmbeddings :: "env \<Rightarrow> doc list \<Rightarrow> string \<Rightarrow> insert_meta \<Rightarrow> unit io" where
  "insertEmbeddings env documents userId metadata =
     io_catch (insert_loop env documents userId metadata) (\<lambda>error. io_return ())"

section \<open>Text extraction (services/gemini.service.ts)\<close>

text \<open>An empty extracted text is returned as it is (the source only logs a warning).\<close>

definition extractTextFromDocument :: "env \<Rightarrow> string \<Rightarrow> string io" where
  "extractTextFromDocument env filePath =
     io_catch
       (if \<not> extract_model env then io_throw ''Gemini model not initialized''
        else
          io_bind (request (ReadFile filePath) (\<lambda>n. readFile_r env n filePath)) (\<lambda>fileContent.
          io_bind (request (ExtractGenerate fileContent)
                     (\<lambda>n. extract_generate_r env n fileContent)) (\<lambda>response.
            case response of
              None \<Rightarrow> io_throw ''No response candidates returned''
            | Some [] \<Rightarrow> io_throw ''No response candidates returned''
            | Some (None # _) \<Rightarrow> io_return []
            | Some (Some [] # _) \<Rightarrow>
                io_throw (''Cannot read properties of undefined (reading '' @ apos @ ''text'' @ apos @ '')'')
            | Some (Some (t # _) # _) \<Rightarrow> io_return t)))
       (\<lambda>error. io_throw (''[GeminiService] Failed to extract text from document: '' @ error))"

section \<open>handler/source.handler.ts\<close>

definition number_chunks :: "string list \<Rightarrow> doc list" where
  "number_chunks bufferOutput =
     map (\<lambda>(index, chunk). \<lparr>pageContent = chunk, chunk_id = index\<rparr>) (enumerate 0 bufferOutput)"

definition subject_of :: "string option option \<Rightarrow> string option" where
  "subject_of dataSource =
     (case dataSource of Some (Some s) \<Rightarrow> if s \<noteq> [] then Some s else None | _ \<Rightarrow> None)"

text \<open>\<^verbatim>\<open>processFileAsync\<close>; of the uploaded file only its path is used.\<close>

definition processFileAsync :: "env \<Rightarrow> string \<Rightarrow> string \<Rightarrow> string \<Rightarrow> unit io" where
  "processFileAsync env filePath dataSourceId userId =
     io_catch
       (io_bind (db_findUnique env dataSourceId) (\<lambda>dataSource.
        io_bind (extractTextFromDocument env filePath) (\<lambda>extractedText.
        io_bind (insertEmbeddings env (number_chunks (splitter env extractedText)) userId
                   \<lparr>im_subjectId = subject_of dataSource, im_dataSourceId = dataSourceId\<rparr>) (\<lambda>_.
        db_update env
          \<lparr>dw_id = dataSourceId, dw_content = extractedText, dw_status = COMPLETED\<rparr>))))
       (\<lambda>error.
          io_bind (db_update env
                     \<lparr>dw_id = dataSourceId, dw_content = ''Error processing: '' @ error,
                      dw_status = ERROR\<rparr>) (\<lambda>_.
          io_throw error))"

text \<open>The status a data source has after the writes applied so far; \<open>PROCESSING\<close> is what
  \<^verbatim>\<open>createDataSource\<close> stores before it starts the run.\<close>

definition status_after :: "db_write list \<Rightarrow> string \<Rightarrow> DataSourceStatus" where
  "status_after ws i =
     (case filter (\<lambda>x. dw_id x = i) ws of
        [] \<Rightarrow> PROCESSING
      | x # xs \<Rightarrow> dw_status (last (x # xs)))"

section \<open>handler/query.handler.ts\<close>

text \<open>The request after authentication: the user id of the token, the \<^verbatim>\<open>query\<close> of the body
  when it is a string, and its \<^verbatim>\<open>subjectId\<close>. The response: status, \<^verbatim>\<open>success\<close>, the \<^verbatim>\<open>answer\<close>
  or \<^verbatim>\<open>message\<close>, and the \<^verbatim>\<open>relevanceScore\<close> when the body has one.\<close>

record query_request =
  q_userId :: string
  q_query :: "string option"
  q_subjectId :: "string option"

record http_response =
  res_status :: nat
  res_success :: bool
  res_body :: string
  res_relevanceScore :: "int option"

definition nl :: string where
  "nl = [CHR 0x0A]"

definition no_context_answer :: string where
  "no_context_answer =
     ''I couldn'' @ apos @ ''t find any relevant information related to your question in the materials for this subject. Would you like to add more materials on this topic?''"

definition trouble_answer :: string where
  "trouble_answer =
     ''I'' @ apos @ ''m having trouble searching through your materials right now. This could be because the vector database is still initializing or needs maintenance. Please try again in a few moments.''"

definition systemPrompt :: string where
  "systemPrompt =
     nl @ ''      You are a helpful AI tutor designed to help students learn. ''
     @ nl @ ''      Your knowledge comes from the provided context only.''
     @ nl @ ''      If the context doesn'' @ apos @ ''t contain enough information to fully answer the question, acknowledge what you know ''
     @ nl @ ''      from the context and suggest what additional information might be needed.''
     @ nl @ ''      Always be encouraging, clear, and explain concepts in a way that'' @ apos @ ''s easy to understand.''
     @ nl @ ''    ''"

definition prompt_of :: "string \<Rightarrow> string \<Rightarrow> string" where
  "prompt_of contextText query =
     systemPrompt @ nl @ nl @ ''Context:'' @ nl @ contextText @ nl @ nl @ ''User Question: '' @ query"

text \<open>Lines 52 to 72: the search options the handler hands to \<^verbatim>\<open>searchMilvus\<close>.\<close>

definition resolve_options :: "env \<Rightarrow> string \<Rightarrow> string option \<Rightarrow> search_options io" where
  "resolve_options env userId sid =
     (case sid of
        None \<Rightarrow> io_return \<lparr>topK = Some 3, subjectId = None, dataSourceIds = None\<rparr>
      | Some s \<Rightarrow>
          if s = [] then io_return \<lparr>topK = Some 3, subjectId = None, dataSourceIds = None\<rparr>
          else
            io_bind (db_findMany env userId s) (\<lambda>ids.
              if ids \<noteq> [] then
                io_return \<lparr>topK = Some 3, subjectId = None, dataSourceIds = Some ids\<rparr>
              else
                io_return \<lparr>topK = Some 3, subjectId = Some s, dataSourceIds = None\<rparr>))"

definition answer_from :: "env \<Rightarrow> string \<Rightarrow> hit list \<Rightarrow> http_response io" where
  "answer_from env query contextChunks =
     io_bind (request (AnswerGenerate (prompt_of (join (nl @ nl) (map h_text contextChunks)) query))
                (\<lambda>n. answer_generate_r env n
                        (prompt_of (join (nl @ nl) (map h_text contextChunks)) query)))
       (\<lambda>response.
          case response of
            None \<Rightarrow>
              io_return \<lparr>res_status = 500, res_success = False,
                         res_body = ''No response generated from AI'', res_relevanceScore = None\<rparr>
          | Some [] \<Rightarrow>
              io_return \<lparr>res_status = 500, res_success = False,
                         res_body = ''No response generated from AI'', res_relevanceScore = None\<rparr>
          | Some (Some (t # _) # _) \<Rightarrow>
              io_return \<lparr>res_status = 200, res_success = True, res_body = t,
                         res_relevanceScore = (case contextChunks of [] \<Rightarrow> Some 0 | c # _ \<Rightarrow> Some (h_score c))\<rparr>
          | Some (_ # _) \<Rightarrow>
              io_throw (''Cannot read properties of undefined (reading '' @ apos @ ''text'' @ apos @ '')''))"

definition answerUserQuery :: "env \<Rightarrow> query_request \<Rightarrow> http_response io" where
  "answerUserQuery env req =
     io_catch
       (if \<not> truthy (q_query req) then
          io_return \<lparr>res_status = 400, res_success = False,
                     res_body = ''Query is required and must be a string'', res_relevanceScore = None\<rparr>
        else if \<not> query_model env then
          io_return \<lparr>res_status = 500, res_success = False,
                     res_body = ''Gemini model not initialized'', res_relevanceScore = None\<rparr>
        else
          io_catch
            (io_bind (resolve_options env (q_userId req) (q_subjectId req)) (\<lambda>searchOptions.
             io_bind (searchMilvus env (the (q_query req)) (q_userId req) searchOptions)
               (\<lambda>contextChunks.
                  if contextChunks = [] then
                    io_return \<lparr>res_status = 200, res_success = True,
                               res_body = no_context_answer, res_relevanceScore = Some 0\<rparr>
                  else answer_from env (the (q_query req)) contextChunks)))
            (\<lambda>searchError.
               io_return \<lparr>res_status = 200, res_success = True,
                          res_body = trouble_answer, res_relevanceScore = Some 0\<rparr>))
       (\<lambda>error.
          io_return \<lparr>res_status = 500, res_success = False,
                     res_body = ''Failed to answer query'', res_relevanceScore = None\<rparr>)"

section \<open>The admin handler of the index reset\<close>


section \<open>Reasoning about runs\<close>

text \<open>An invariant of the world that a computation keeps, a computation that never throws,
  and a property of every value a computation returns.\<close>

definition io_inv :: "(world \<Rightarrow> bool) \<Rightarrow> 'a io \<Rightarrow> bool" where
  "io_inv I m = (\<forall>w. I w \<longrightarrow> I (snd (m w)))"

definition io_total :: "'a io \<Rightarrow> bool" where
  "io_total m = (\<forall>w. \<exists>x. fst (m w) = Inr x)"

definition io_results :: "'a io \<Rightarrow> ('a \<Rightarrow> bool) \<Rightarrow> bool" where
  "io_results m S = (\<forall>w x. fst (m w) = Inr x \<longrightarrow> S x)"




definition plain_call :: "call \<Rightarrow> bool" where
  "plain_call c = (case c of Search r \<Rightarrow> False | ConsoleLog s \<Rightarrow> False | _ \<Rightarrow> True)"

section \<open>A world in which every collaborator answers\<close>

text \<open>The collection exists and is indexed, every request succeeds, no stored chunk matches
  a search, and the splitter returns short texts as one chunk. The examples below change
  one answer at a time.\<close>

definition example_env :: env where
  "example_env =
     \<lparr>showCollections_r = (\<lambda>n. Inr [COLLECTION_NAME]),
      loadCollection_r = (\<lambda>n. Inr ()),
      createCollection_r = (\<lambda>n. Inr ()),
      describeIndex_r = (\<lambda>n. Inr [''embedding'']),
      createIndex_r = (\<lambda>n. Inr ()),
      dropIndex_r = (\<lambda>n. Inr ()),
      insert_r = (\<lambda>n e. Inr ()),
      search_r = (\<lambda>n r. Inr (Some [])),
      deleteEntities_r = (\<lambda>n f. Inr ()),
      predict_r = (\<lambda>n instances. Inr (map (\<lambda>s. [int (length s)]) instances)),
      readFile_r = (\<lambda>n p. Inr ''bytes''),
      extract_model = True,
      extract_generate_r = (\<lambda>n d. Inr (Some [Some [''Paragraph one.'']])),
      splitter = (\<lambda>t. if t = [] then [] else [t]),
      findUnique_r = (\<lambda>n i. Inr (Some None)),
      findMany_r = (\<lambda>n u s. Inr []),
      update_r = (\<lambda>n d. Inr ()),
      query_model = True,
      answer_generate_r = (\<lambda>n p. Inr (Some [Some [''An answer.'']]))\<rparr>"

definition world0 :: world where
  "world0 = \<lparr>clock = 0, log = [], chunks = [], db_writes = []\<rparr>"

definition example_request :: query_request where
  "example_request = \<lparr>q_userId = ''u1'', q_query = Some ''What is photosynthesis?'', q_subjectId = Some ''s1''\<rparr>"

definition io_hoare :: "(world \<Rightarrow> bool) \<Rightarrow> 'a io \<Rightarrow> (world \<Rightarrow> bool) \<Rightarrow> bool" where
  "io_hoare P m Q = (\<forall>w. P w \<longrightarrow> Q (snd (m w)))"

definition fallbacks :: "world \<Rightarrow> nat" where
  "fallbacks w = length (filter (\<lambda>c. c = ConsoleLog fallback_message) (log w))"




definition tenant_uuid :: string where
  "tenant_uuid = ''7d0c1a54-3b2e-4f6a-8c9d-0e1f2a3b4c5d''"

definition subject_uuid :: string where
  "subject_uuid = ''2f9e8d7c-6b5a-4c3d-9e1f-0a1b2c3d4e5f''"

definition source_uuid :: string where
  "source_uuid = ''a1b2c3d4-e5f6-4a7b-8c9d-0e1f2a3b4c5d''"

text \<open>The subject has one data source in the relational store; the collection holds one
  row of the tenant that is tagged with the subject only.\<close>

definition legacy_env :: env where
  "legacy_env =
     example_env
       \<lparr>findMany_r := \<lambda>n u s. Inr [source_uuid],
        search_r := \<lambda>n r.
          if sr_filter r = ''user_id == '' @ dq @ tenant_uuid @ dq
               @ '' && subject_id == '' @ dq @ subject_uuid @ dq
          then Inr (Some [\<lparr>r_id = 1, r_text = ''Legacy chunk about photosynthesis.'',
                           r_score = 1, r_metadata = []\<rparr>])
          else Inr (Some [])\<rparr>"

definition legacy_request :: query_request where
  "legacy_request =
     \<lparr>q_userId = tenant_uuid, q_query = Some ''What is photosynthesis?'',
      q_subjectId = Some subject_uuid\<rparr>"

section \<open>The two halves of an ingestion run\<close>

text \<open>The \<^verbatim>\<open>try\<close> block and the \<^verbatim>\<open>catch\<close> block of \<^verbatim>\<open>processFileAsync\<close>, named for the proofs.\<close>

definition ingest_steps :: "env \<Rightarrow> string \<Rightarrow> string \<Rightarrow> string \<Rightarrow> unit io" where
  "ingest_steps env filePath dataSourceId userId =
     io_bind (db_findUnique env dataSourceId) (\<lambda>dataSource.
     io_bind (extractTextFromDocument env filePath) (\<lambda>extractedText.
     io_bind (insertEmbeddings env (number_chunks (splitter env extractedText)) userId
                \<lparr>im_subjectId = subject_of dataSource, im_dataSourceId = dataSourceId\<rparr>) (\<lambda>_.
     db_update env
       \<lparr>dw_id = dataSourceId, dw_content = extractedText, dw_status = COMPLETED\<rparr>)))"

definition ingest_failed :: "env \<Rightarrow> string \<Rightarrow> error \<Rightarrow> unit io" where
  "ingest_failed env dataSourceId error =
     io_bind (db_update env
                \<lparr>dw_id = dataSourceId, dw_content = ''Error processing: '' @ error,
                 dw_status = ERROR\<rparr>) (\<lambda>_.
     io_throw error)"

section \<open>Ingestion runs used as examples\<close>

definition upload_path :: string where
  "upload_path = ''uploads/notes.pdf''"


definition failing_insert_env :: env where
  "failing_insert_env = example_env\<lparr>insert_r := \<lambda>n e. Inl ''collection not loaded''\<rparr>"

definition empty_text_env :: env where
  "empty_text_env = example_env\<lparr>extract_generate_r := \<lambda>n d. Inr (Some [Some [[]]])\<rparr>"

section \<open>The store's reading of a filter\<close>

text \<open>
  The filter of a search is a string in the boolean expression language of the vector
  store, which is outside the repository. The fragment the filters of this program are
  written in is modelled: comparisons of a field with a string literal by \<^verbatim>\<open>==\<close> or \<^verbatim>\<open>!=\<close>,
  joined by \<^verbatim>\<open>&&\<close> and \<^verbatim>\<open>||\<close>, with parentheses; \<^verbatim>\<open>&&\<close> binds tighter than \<^verbatim>\<open>||\<close>. A string
  literal runs from a double quote to the next double quote that is not escaped by a
  backslash; an escaped character stands for itself. Anything else is an expression the
  store rejects (\<open>None\<close>).
\<close>

datatype token = TField string | TString string | TEq | TNe | TAnd | TOr | TOpen | TClose



definition emit :: "token list \<Rightarrow> token list option \<Rightarrow> token list option" where
  "emit ts r = map_option (\<lambda>rest. ts @ rest) r"












section \<open>More worlds used as examples\<close>

text \<open>The collection holds rows of the tenant that match the tenant clause alone.\<close>

definition tenant_rows_env :: env where
  "tenant_rows_env =
     example_env
       \<lparr>search_r := \<lambda>n r.
          if sr_filter r = ''user_id == '' @ dq @ tenant_uuid @ dq
          then Inr (Some [\<lparr>r_id = 7, r_text = ''Chunk about chlorophyll.'',
                           r_score = 2, r_metadata = []\<rparr>])
          else Inr (Some [])\<rparr>"




text \<open>The relational store refuses the \<open>COMPLETED\<close> update only, or every update; the
  generative model of the extraction was not initialised.\<close>

definition failing_completed_env :: env where
  "failing_completed_env =
     example_env
       \<lparr>update_r := \<lambda>n d. if dw_status d = COMPLETED then Inl ''database unavailable''
                            else Inr ()\<rparr>"

definition failing_update_env :: env where
  "failing_update_env = example_env\<lparr>update_r := \<lambda>n d. Inl ''database unavailable''\<rparr>"

definition no_model_env :: env where
  "no_model_env = example_env\<lparr>extract_model := False\<rparr>"

section \<open>Rules for the combinators\<close>

lemma io_inv_return: "io_inv I (io_return x)"
  by (simp add: io_inv_def io_return_def)

lemma io_inv_throw: "io_inv I (io_throw e)"
  by (simp add: io_inv_def io_throw_def)

lemma io_inv_bind:
  assumes "io_inv I m" and "\<And>x. io_inv I (f x)"
  shows "io_inv I (io_bind m f)"
  unfolding io_inv_def
proof (intro allI impI)
  fix w assume "I w"
  with assms(1) have 1: "I (snd (m w))" by (simp add: io_inv_def)
  show "I (snd (io_bind m f w))"
  proof (cases "m w")
    case (Pair r w1)
    with 1 have w1: "I w1" by simp
    show ?thesis
    proof (cases r)
      case (Inl e)
      with Pair w1 show ?thesis by (simp add: io_bind_def)
    next
      case (Inr x)
      from assms(2)[of x] w1 have "I (snd (f x w1))" by (simp add: io_inv_def)
      with Pair Inr show ?thesis by (simp add: io_bind_def)
    qed
  qed
qed

lemma io_inv_catch:
  assumes "io_inv I m" and "\<And>e. io_inv I (h e)"
  shows "io_inv I (io_catch m h)"
  unfolding io_inv_def
proof (intro allI impI)
  fix w assume "I w"
  with assms(1) have 1: "I (snd (m w))" by (simp add: io_inv_def)
  show "I (snd (io_catch m h w))"
  proof (cases "m w")
    case (Pair r w1)
    with 1 have w1: "I w1" by simp
    show ?thesis
    proof (cases r)
      case (Inr x)
      with Pair w1 show ?thesis by (simp add: io_catch_def)
    next
      case (Inl e)
      from assms(2)[of e] w1 have "I (snd (h e w1))" by (simp add: io_inv_def)
      with Pair Inl show ?thesis by (simp add: io_catch_def)
    qed
  qed
qed

lemma io_inv_if: "io_inv I a \<Longrightarrow> io_inv I b \<Longrightarrow> io_inv I (if c then a else b)"
  by simp

lemma io_inv_request:
  assumes "\<And>w. I w \<Longrightarrow> I (tick c w)"
  shows "io_inv I (request c a)"
  using assms by (simp add: io_inv_def request_def)

lemma io_total_catch: "(\<And>e. io_total (h e)) \<Longrightarrow> io_total (io_catch m h)"
  unfolding io_total_def io_catch_def
  by (auto split: prod.splits sum.splits)

lemma io_total_return: "io_total (io_return x)"
  by (simp add: io_total_def io_return_def)

lemma io_results_return: "S x \<Longrightarrow> io_results (io_return x) S"
  by (simp add: io_results_def io_return_def)

lemma io_results_throw: "io_results (io_throw e) S"
  by (simp add: io_results_def io_throw_def)

lemma io_results_bind: "(\<And>x. io_results (f x) S) \<Longrightarrow> io_results (io_bind m f) S"
  unfolding io_results_def io_bind_def
  by (auto split: prod.splits sum.splits)

lemma io_results_catch:
  "io_results m S \<Longrightarrow> (\<And>e. io_results (h e) S) \<Longrightarrow> io_results (io_catch m h) S"
  unfolding io_results_def io_catch_def
  by (auto split: prod.splits sum.splits) (metis fst_conv)

lemma io_inv_case_option:
  "io_inv I a \<Longrightarrow> (\<And>v. io_inv I (b v)) \<Longrightarrow> io_inv I (case x of None \<Rightarrow> a | Some v \<Rightarrow> b v)"
  by (cases x) simp_all

lemma io_inv_console_log:
  assumes "\<And>w. I w \<Longrightarrow> I (w\<lparr>log := log w @ [ConsoleLog s]\<rparr>)"
  shows "io_inv I (console_log s)"
  using assms by (simp add: io_inv_def console_log_def)


lemma io_results_bind_R:
  "io_results m R \<Longrightarrow> (\<And>x. R x \<Longrightarrow> io_results (f x) S) \<Longrightarrow> io_results (io_bind m f) S"
  unfolding io_results_def io_bind_def
  by (auto split: prod.splits sum.splits) (metis fst_conv)

lemma io_results_if:
  "(c \<Longrightarrow> io_results a S) \<Longrightarrow> (\<not> c \<Longrightarrow> io_results b S) \<Longrightarrow> io_results (if c then a else b) S"
  by simp

lemma io_results_case_option:
  "io_results a S \<Longrightarrow> (\<And>v. io_results (b v) S)
     \<Longrightarrow> io_results (case x of None \<Rightarrow> a | Some v \<Rightarrow> b v) S"
  by (cases x) simp_all


lemma io_results_Nil: "io_results (io_return []) (\<lambda>hits. hits = [])"
  by (simp add: io_results_return)

lemma io_hoare_return: "(\<And>w. P w \<Longrightarrow> Q w) \<Longrightarrow> io_hoare P (io_return x) Q"
  by (simp add: io_hoare_def io_return_def)

lemma io_hoare_throw: "(\<And>w. P w \<Longrightarrow> Q w) \<Longrightarrow> io_hoare P (io_throw e) Q"
  by (simp add: io_hoare_def io_throw_def)

lemma io_hoare_request:
  assumes "\<And>w. P w \<Longrightarrow> Q (tick c w)"
  shows "io_hoare P (request c a) Q"
  using assms by (simp add: io_hoare_def request_def)

lemma io_hoare_bind_inv:
  assumes "io_inv P m" and "\<And>x. io_hoare P (f x) Q" and "\<And>w. P w \<Longrightarrow> Q w"
  shows "io_hoare P (io_bind m f) Q"
  unfolding io_hoare_def
proof (intro allI impI)
  fix w assume "P w"
  with assms(1) have 1: "P (snd (m w))" by (simp add: io_inv_def)
  show "Q (snd (io_bind m f w))"
  proof (cases "m w")
    case (Pair r w1)
    with 1 have w1: "P w1" by simp
    show ?thesis
    proof (cases r)
      case (Inl e)
      with Pair w1 assms(3) show ?thesis by (simp add: io_bind_def)
    next
      case (Inr x)
      from assms(2)[of x] w1 have "Q (snd (f x w1))" by (simp add: io_hoare_def)
      with Pair Inr show ?thesis by (simp add: io_bind_def)
    qed
  qed
qed

lemma io_hoare_bind_post:
  assumes "io_hoare P m Q" and "\<And>x. io_inv Q (f x)"
  shows "io_hoare P (io_bind m f) Q"
  unfolding io_hoare_def
proof (intro allI impI)
  fix w assume "P w"
  with assms(1) have 1: "Q (snd (m w))" by (simp add: io_hoare_def)
  show "Q (snd (io_bind m f w))"
  proof (cases "m w")
    case (Pair r w1)
    with 1 have w1: "Q w1" by simp
    show ?thesis
    proof (cases r)
      case (Inl e)
      with Pair w1 show ?thesis by (simp add: io_bind_def)
    next
      case (Inr x)
      from assms(2)[of x] w1 have "Q (snd (f x w1))" by (simp add: io_inv_def)
      with Pair Inr show ?thesis by (simp add: io_bind_def)
    qed
  qed
qed

lemma io_hoare_catch_post:
  assumes "io_hoare P m Q" and "\<And>e. io_inv Q (h e)"
  shows "io_hoare P (io_catch m h) Q"
  unfolding io_hoare_def
proof (intro allI impI)
  fix w assume "P w"
  with assms(1) have 1: "Q (snd (m w))" by (simp add: io_hoare_def)
  show "Q (snd (io_catch m h w))"
  proof (cases "m w")
    case (Pair r w1)
    with 1 have w1: "Q w1" by simp
    show ?thesis
    proof (cases r)
      case (Inr x)
      with Pair w1 show ?thesis by (simp add: io_catch_def)
    next
      case (Inl e)
      from assms(2)[of e] w1 have "Q (snd (h e w1))" by (simp add: io_inv_def)
      with Pair Inl show ?thesis by (simp add: io_catch_def)
    qed
  qed
qed

lemma io_hoare_if:
  "io_hoare P a Q \<Longrightarrow> io_hoare P b Q \<Longrightarrow> io_hoare P (if c then a else b) Q"
  by simp

lemma io_hoare_case_option:
  "io_hoare P a Q \<Longrightarrow> (\<And>v. io_hoare P (b v) Q)
     \<Longrightarrow> io_hoare P (case x of None \<Rightarrow> a | Some v \<Rightarrow> b v) Q"
  by (cases x) simp_all

lemma io_hoare_console_log:
  assumes "\<And>w. P w \<Longrightarrow> Q (w\<lparr>log := log w @ [ConsoleLog s]\<rparr>)"
  shows "io_hoare P (console_log s) Q"
  using assms by (simp add: io_hoare_def console_log_def)

lemmas io_inv_rules = io_inv_return io_inv_throw io_inv_bind io_inv_catch io_inv_if

lemmas io_defs = io_return_def io_throw_def io_bind_def io_catch_def request_def tick_def
  console_log_def

lemmas prim_defs = client_showCollections_def client_loadCollection_def
  client_createCollection_def client_describeIndex_def client_createIndex_def
  client_dropIndex_def client_search_def client_insert_def client_deleteEntities_def
  predict_def db_update_def db_findUnique_def db_findMany_def

lemmas search_defs = try_load_def hits_of_def no_results_def on_search_error_def
  topK_of_def has_ids_def build_filter_def getEmbeddings_def to_hit_def

lemmas example_defs = example_env_def world0_def COLLECTION_NAME_def dq_def

lemmas uuid_defs = tenant_uuid_def subject_uuid_def source_uuid_def












section \<open>The index reset\<close>

text \<open>Deleting by data source does remove rows, for contrast with the reset below.\<close>

lemma deleteEmbeddingsByDataSource_removes:
  assumes "loadCollection_r env (clock w) = Inr ()"
    and "deleteEntities_r env (Suc (clock w)) (''data_source_id == '' @ dq @ dataSourceId @ dq)
      = Inr ()"
  shows "chunks (snd (deleteEmbeddingsByDataSource env dataSourceId w))
    = filter (\<lambda>e. data_source_id e \<noteq> dataSourceId) (chunks w)"
  using assms
  by (simp add: deleteEmbeddingsByDataSource_def client_deleteEntities_def
      client_loadCollection_def io_defs)




























section \<open>Similarity search\<close>

text \<open>An invariant of every request but the similarity searches and the console.\<close>

lemma getEmbeddings_inv:
  assumes "\<And>c w. plain_call c \<Longrightarrow> I w \<Longrightarrow> I (tick c w)"
  shows "io_inv I (getEmbeddings env t)"
  unfolding getEmbeddings_def predict_def
  by (intro io_inv_bind io_inv_return io_inv_request assms) (simp add: plain_call_def)

lemma createIndex_inv:
  assumes "\<And>c w. plain_call c \<Longrightarrow> I w \<Longrightarrow> I (tick c w)"
  shows "io_inv I (createIndex env)"
  unfolding createIndex_def client_showCollections_def client_describeIndex_def
    client_createIndex_def
  by (intro io_inv_rules io_inv_request assms) (simp_all add: plain_call_def)

lemma try_load_inv:
  assumes "\<And>c w. plain_call c \<Longrightarrow> I w \<Longrightarrow> I (tick c w)"
  shows "io_inv I (try_load env)"
  unfolding try_load_def client_loadCollection_def
  by (intro io_inv_rules io_inv_request assms) (simp_all add: plain_call_def)

lemma client_search_inv:
  assumes "\<And>w. I w \<Longrightarrow> I (tick (Search r) w)"
  shows "io_inv I (client_search env r)"
  unfolding client_search_def
  by (intro io_inv_request assms)

lemma on_search_error_inv:
  assumes "\<And>c w. plain_call c \<Longrightarrow> I w \<Longrightarrow> I (tick c w)"
    and "\<And>w. I w \<Longrightarrow> I (tick (Search r) w)"
  shows "io_inv I (on_search_error env r e)"
  unfolding on_search_error_def
  by (intro io_inv_rules createIndex_inv client_search_inv assms(2) assms(1))

lemma has_ids_None [simp]:
  "has_ids \<lparr>topK = k, subjectId = s, dataSourceIds = None\<rparr> = False"
  by (simp add: has_ids_def)

lemma searchMilvus_inv_no_ids:
  assumes calls: "\<And>c w. plain_call c \<Longrightarrow> I w \<Longrightarrow> I (tick c w)"
    and search: "\<And>w v. I w \<Longrightarrow>
        I (tick (Search \<lparr>sr_vector = v, sr_limit = topK_of options,
                          sr_filter = build_filter userId options\<rparr>) w)"
    and no_ids: "\<not> has_ids options"
  shows "io_inv I (searchMilvus env queryText userId options)"
  apply (subst searchMilvus.simps)
  apply (simp only: no_ids simp_thms if_False)
  apply (unfold client_showCollections_def)
  apply (intro io_inv_rules io_inv_case_option io_inv_request try_load_inv getEmbeddings_inv
      client_search_inv on_search_error_inv search calls)
  apply (simp_all add: plain_call_def)
  done

lemma searchMilvus_inv:
  assumes calls: "\<And>c w. plain_call c \<Longrightarrow> I w \<Longrightarrow> I (tick c w)"
    and search: "\<And>w v k opts. I w \<Longrightarrow>
        I (tick (Search \<lparr>sr_vector = v, sr_limit = k,
                          sr_filter = build_filter userId opts\<rparr>) w)"
    and logs: "\<And>w. I w \<Longrightarrow> I (w\<lparr>log := log w @ [ConsoleLog fallback_message]\<rparr>)"
  shows "io_inv I (searchMilvus env queryText userId options)"
  apply (subst searchMilvus.simps)
  apply (unfold client_showCollections_def)
  apply (intro io_inv_rules io_inv_case_option io_inv_request try_load_inv getEmbeddings_inv
      client_search_inv on_search_error_inv io_inv_console_log searchMilvus_inv_no_ids search logs calls)
  apply (simp_all add: plain_call_def)
  done

section \<open>The filter of a search, as the store reads it\<close>

lemma emit_Some [simp]: "emit ts (Some rest) = Some (ts @ rest)"
  by (simp add: emit_def)

lemma emit_None [simp]: "emit ts None = None"
  by (simp add: emit_def)

lemma emit_emit [simp]: "emit a (emit b r) = emit (a @ b) r"
  by (cases r) simp_all



























section \<open>Searches that find nothing\<close>

lemma client_search_results:
  assumes "\<And>n x. search_r env n r = Inr x \<Longrightarrow> R x"
  shows "io_results (client_search env r) R"
  using assms by (simp add: io_results_def client_search_def request_def)

lemma search_then_empty:
  assumes "\<And>n x. search_r env n r = Inr x \<Longrightarrow> no_results x"
    and "io_results A (\<lambda>hits. hits = [])"
  shows "io_results
           (io_bind (client_search env r)
              (\<lambda>searchResults. if no_results searchResults then A
                 else io_return (hits_of searchResults)))
           (\<lambda>hits. hits = [])"
proof (rule io_results_bind_R[where R = no_results])
  show "io_results (client_search env r) no_results"
    by (rule client_search_results) (erule assms(1))
  show "io_results (if no_results x then A else io_return (hits_of x)) (\<lambda>hits. hits = [])"
    if "no_results x" for x
    using that assms(2) by simp
qed

lemma on_search_error_empty:
  assumes "\<And>n x. search_r env n r = Inr x \<Longrightarrow> no_results x"
  shows "io_results (on_search_error env r e) (\<lambda>hits. hits = [])"
  unfolding on_search_error_def
  by (intro io_results_if search_then_empty io_results_bind io_results_catch io_results_Nil)
    (erule assms)

lemma searchMilvus_empty_no_ids:
  assumes empty: "\<And>n r x. sr_filter r = build_filter userId options \<Longrightarrow> search_r env n r = Inr x
      \<Longrightarrow> no_results x"
    and no_ids: "\<not> has_ids options"
  shows "io_results (searchMilvus env queryText userId options) (\<lambda>hits. hits = [])"
  apply (subst searchMilvus.simps)
  apply (simp only: no_ids simp_thms if_False)
  apply (intro io_results_if io_results_case_option search_then_empty on_search_error_empty
      io_results_bind io_results_catch io_results_Nil)
   apply (erule empty[rotated], simp)+
  done

lemma searchMilvus_empty:
  assumes primary: "\<And>n r x. sr_filter r = build_filter userId options
      \<Longrightarrow> search_r env n r = Inr x \<Longrightarrow> no_results x"
    and fallback: "\<And>n r x. sr_filter r = build_filter userId
          \<lparr>topK = Some (topK_of options), subjectId = subjectId options, dataSourceIds = None\<rparr>
      \<Longrightarrow> search_r env n r = Inr x \<Longrightarrow> no_results x"
  shows "io_results (searchMilvus env queryText userId options) (\<lambda>hits. hits = [])"
  apply (subst searchMilvus.simps)
  apply (intro io_results_if io_results_case_option search_then_empty on_search_error_empty
      searchMilvus_empty_no_ids io_results_bind io_results_catch io_results_Nil)
     apply (erule primary[rotated], simp)
    apply (erule fallback[rotated], simp)
   apply simp
  apply (erule primary[rotated], simp)
  done

lemma searchMilvus_total: "io_total (searchMilvus env queryText userId options)"
  by (subst searchMilvus.simps) (intro io_total_catch io_total_return)

lemma searchMilvus_no_collection:
  assumes "showCollections_r env (clock w) = Inr collections"
    and "COLLECTION_NAME \<notin> set collections"
  shows "fst (searchMilvus env queryText userId options w) = Inr []"
  apply (subst searchMilvus.simps)
  apply (simp add: io_catch_def io_bind_def client_showCollections_def request_def
      io_return_def assms)
  done

lemma searchMilvus_empty_no_fallback:
  assumes empty: "\<And>n r x. sr_filter r = build_filter userId options \<Longrightarrow> search_r env n r = Inr x
      \<Longrightarrow> no_results x"
    and no_fallback: "\<not> (has_ids options \<and> truthy (subjectId options))"
  shows "io_results (searchMilvus env queryText userId options) (\<lambda>hits. hits = [])"
  apply (subst searchMilvus.simps)
  apply (simp only: no_fallback if_False)
  apply (intro io_results_if io_results_case_option search_then_empty on_search_error_empty
      io_results_bind io_results_catch io_results_Nil)
   apply (erule empty[rotated], simp)+
  done

lemma searchMilvus_found:
  assumes lists: "showCollections_r env (clock w) = Inr collections"
    and exists: "COLLECTION_NAME \<in> set collections"
    and loads: "loadCollection_r env (Suc (clock w)) = Inr ()"
    and embeds: "predict_r env (Suc (Suc (clock w))) (split_on CHR '';'' queryText) = Inr (v # vs)"
    and searches: "search_r env (Suc (Suc (Suc (clock w))))
        \<lparr>sr_vector = v, sr_limit = topK_of options, sr_filter = build_filter userId options\<rparr>
      = Inr (Some (x # xs))"
  shows "fst (searchMilvus env queryText userId options w) = Inr (map to_hit (x # xs))"
  apply (subst searchMilvus.simps)
  using assms
  apply (simp add: io_defs prim_defs try_load_def getEmbeddings_def no_results_def hits_of_def)
  done

lemma searchMilvus_falls_back:
  assumes lists: "showCollections_r env (clock w) = Inr collections"
    and exists: "COLLECTION_NAME \<in> set collections"
    and loads: "loadCollection_r env (Suc (clock w)) = Inr ()"
    and embeds: "predict_r env (Suc (Suc (clock w))) (split_on CHR '';'' queryText) = Inr (v # vs)"
    and searches: "search_r env (Suc (Suc (Suc (clock w))))
        \<lparr>sr_vector = v, sr_limit = topK_of options, sr_filter = build_filter userId options\<rparr>
      = Inr searchResults"
    and empty: "no_results searchResults"
    and ids: "has_ids options"
    and subject: "truthy (subjectId options)"
  shows "searchMilvus env queryText userId options w
    = searchMilvus env queryText userId
        \<lparr>topK = Some (topK_of options), subjectId = subjectId options, dataSourceIds = None\<rparr>
        (w\<lparr>clock := clock w + 4,
           log := log w @ [ShowCollections, LoadCollection, Predict (split_on CHR '';'' queryText),
                    Search \<lparr>sr_vector = v, sr_limit = topK_of options,
                            sr_filter = build_filter userId options\<rparr>,
                    ConsoleLog fallback_message]\<rparr>)"
proof -
  let ?opts = "\<lparr>topK = Some (topK_of options), subjectId = subjectId options,
      dataSourceIds = None\<rparr>"
  let ?w5 = "w\<lparr>clock := clock w + 4,
           log := log w @ [ShowCollections, LoadCollection, Predict (split_on CHR '';'' queryText),
                    Search \<lparr>sr_vector = v, sr_limit = topK_of options,
                            sr_filter = build_filter userId options\<rparr>,
                    ConsoleLog fallback_message]\<rparr>"
  from searchMilvus_total[of env queryText userId ?opts]
  obtain hits where "fst (searchMilvus env queryText userId ?opts ?w5) = Inr hits"
    unfolding io_total_def by blast
  then obtain w6 where again: "searchMilvus env queryText userId ?opts ?w5 = (Inr hits, w6)"
    by (cases "searchMilvus env queryText userId ?opts ?w5") simp
  have "searchMilvus env queryText userId options w = (Inr hits, w6)"
    apply (subst searchMilvus.simps)
    using assms again
    apply (simp add: io_defs prim_defs try_load_def getEmbeddings_def numeral_eq_Suc)
    done
  with again show ?thesis by simp
qed

text \<open>
  Claim C5, as the code has it. \<^verbatim>\<open>searchMilvus\<close> never throws. When \<^verbatim>\<open>showCollections\<close> does
  not list the collection it returns the empty list. When the store finds no row for the
  filter of the run it returns the empty list, unless data source identifiers and a subject
  were both given: then it logs the fallback and returns what the same search under the
  subject filter returns, which is the empty list when the store finds no row for that
  filter either. A search that finds rows returns them.
\<close>

theorem searchMilvus_empty_not_error:
  "(\<exists>hits. fst (searchMilvus env queryText userId options w) = Inr hits)
   \<and> ((\<exists>collections. showCollections_r env (clock w) = Inr collections
          \<and> COLLECTION_NAME \<notin> set collections)
        \<longrightarrow> fst (searchMilvus env queryText userId options w) = Inr [])
   \<and> ((\<forall>n r x. sr_filter r = build_filter userId options
            \<longrightarrow> search_r env n r = Inr x \<longrightarrow> no_results x)
        \<and> (has_ids options \<and> truthy (subjectId options) \<longrightarrow>
             (\<forall>n r x. sr_filter r = build_filter userId
                   \<lparr>topK = Some (topK_of options), subjectId = subjectId options,
                     dataSourceIds = None\<rparr>
               \<longrightarrow> search_r env n r = Inr x \<longrightarrow> no_results x))
        \<longrightarrow> fst (searchMilvus env queryText userId options w) = Inr [])
   \<and> (\<forall>collections v vs searchResults.
        showCollections_r env (clock w) = Inr collections \<and> COLLECTION_NAME \<in> set collections
        \<and> loadCollection_r env (Suc (clock w)) = Inr ()
        \<and> predict_r env (Suc (Suc (clock w))) (split_on CHR '';'' queryText) = Inr (v # vs)
        \<and> search_r env (Suc (Suc (Suc (clock w))))
             \<lparr>sr_vector = v, sr_limit = topK_of options, sr_filter = build_filter userId options\<rparr>
            = Inr searchResults
        \<longrightarrow>
          (\<not> no_results searchResults \<longrightarrow>
             fst (searchMilvus env queryText userId options w) = Inr (hits_of searchResults)
             \<and> hits_of searchResults \<noteq> [])
        \<and> (no_results searchResults \<and> \<not> (has_ids options \<and> truthy (subjectId options)) \<longrightarrow>
             fst (searchMilvus env queryText userId options w) = Inr [])
        \<and> (no_results searchResults \<and> has_ids options \<and> truthy (subjectId options) \<longrightarrow>
             searchMilvus env queryText userId options w
               = searchMilvus env queryText userId
                   \<lparr>topK = Some (topK_of options), subjectId = subjectId options,
                     dataSourceIds = None\<rparr>
                   (w\<lparr>clock := clock w + 4,
                      log := log w @ [ShowCollections, LoadCollection,
                               Predict (split_on CHR '';'' queryText),
                               Search \<lparr>sr_vector = v, sr_limit = topK_of options,
                                       sr_filter = build_filter userId options\<rparr>,
                               ConsoleLog fallback_message]\<rparr>)))"
  (is "?returns \<and> ?absent \<and> ?no_match \<and> ?run")
proof (intro conjI)
  from searchMilvus_total show total: ?returns
    unfolding io_total_def by blast
  show ?absent
    using searchMilvus_no_collection by blast
  show ?no_match
  proof (intro impI, elim conjE)
    assume primary: "\<forall>n r x. sr_filter r = build_filter userId options
            \<longrightarrow> search_r env n r = Inr x \<longrightarrow> no_results x"
      and fallback: "has_ids options \<and> truthy (subjectId options) \<longrightarrow>
             (\<forall>n r x. sr_filter r = build_filter userId
                   \<lparr>topK = Some (topK_of options), subjectId = subjectId options,
                     dataSourceIds = None\<rparr>
               \<longrightarrow> search_r env n r = Inr x \<longrightarrow> no_results x)"
    have "io_results (searchMilvus env queryText userId options) (\<lambda>hits. hits = [])"
    proof (cases "has_ids options \<and> truthy (subjectId options)")
      case True
      with fallback show ?thesis
        by (intro searchMilvus_empty) (use primary in blast)+
    next
      case False
      then show ?thesis
        by (intro searchMilvus_empty_no_fallback) (use primary in blast)+
    qed
    with total show "fst (searchMilvus env queryText userId options w) = Inr []"
      unfolding io_results_def by fastforce
  qed
  show ?run
  proof (intro allI impI conjI; elim conjE)
    fix collections v vs searchResults
    assume a: "showCollections_r env (clock w) = Inr collections" "COLLECTION_NAME \<in> set collections"
      "loadCollection_r env (Suc (clock w)) = Inr ()"
      "predict_r env (Suc (Suc (clock w))) (split_on CHR '';'' queryText) = Inr (v # vs)"
      "search_r env (Suc (Suc (Suc (clock w))))
             \<lparr>sr_vector = v, sr_limit = topK_of options, sr_filter = build_filter userId options\<rparr>
            = Inr searchResults"
    {
      assume "\<not> no_results searchResults"
      then obtain x xs where "searchResults = Some (x # xs)"
        by (cases searchResults) (auto simp: no_results_def neq_Nil_conv)
      with searchMilvus_found[OF a(1-4), of options userId x xs] a(5)
      show "fst (searchMilvus env queryText userId options w) = Inr (hits_of searchResults)"
        by (simp add: hits_of_def)
      from \<open>searchResults = Some (x # xs)\<close> show "hits_of searchResults \<noteq> []"
        by (simp add: hits_of_def)
    }
    {
      assume empty: "no_results searchResults"
        and no_fallback: "\<not> (has_ids options \<and> truthy (subjectId options))"
      show "fst (searchMilvus env queryText userId options w) = Inr []"
        apply (subst searchMilvus.simps)
        apply (simp only: no_fallback if_False)
        using a empty
        apply (simp add: io_defs prim_defs try_load_def getEmbeddings_def)
        done
    }
    {
      assume "no_results searchResults" "has_ids options" "truthy (subjectId options)"
      with a show "searchMilvus env queryText userId options w
               = searchMilvus env queryText userId
                   \<lparr>topK = Some (topK_of options), subjectId = subjectId options,
                     dataSourceIds = None\<rparr>
                   (w\<lparr>clock := clock w + 4,
                      log := log w @ [ShowCollections, LoadCollection,
                               Predict (split_on CHR '';'' queryText),
                               Search \<lparr>sr_vector = v, sr_limit = topK_of options,
                                       sr_filter = build_filter userId options\<rparr>,
                               ConsoleLog fallback_message]\<rparr>)"
        by (intro searchMilvus_falls_back)
    }
  qed
qed

theorem searchMilvus_empty_not_error_witness:
  "fst (searchMilvus (example_env\<lparr>showCollections_r := \<lambda>n. Inr []\<rparr>) ''q'' tenant_uuid
          \<lparr>topK = Some 3, subjectId = None, dataSourceIds = None\<rparr> world0) = Inr []
   \<and> fst (searchMilvus tenant_rows_env ''q'' tenant_uuid
          \<lparr>topK = Some 3, subjectId = None, dataSourceIds = Some [source_uuid]\<rparr> world0) = Inr []
   \<and> fst (searchMilvus example_env ''q'' tenant_uuid
          \<lparr>topK = Some 3, subjectId = Some subject_uuid, dataSourceIds = Some [source_uuid]\<rparr>
          world0) = Inr []
   \<and> fst (searchMilvus tenant_rows_env ''q'' tenant_uuid
          \<lparr>topK = Some 3, subjectId = None, dataSourceIds = None\<rparr> world0)
       = Inr [\<lparr>h_text = ''Chunk about chlorophyll.'', h_score = 2, h_metadata = []\<rparr>]
   \<and> fst (searchMilvus example_env ''q'' tenant_uuid
          \<lparr>topK = Some 3, subjectId = Some subject_uuid, dataSourceIds = None\<rparr> world0) = Inr []
   \<and> fst (searchMilvus legacy_env ''q'' tenant_uuid
          \<lparr>topK = Some 3, subjectId = Some subject_uuid, dataSourceIds = Some [source_uuid]\<rparr>
          world0)
       = Inr [\<lparr>h_text = ''Legacy chunk about photosynthesis.'', h_score = 1, h_metadata = []\<rparr>]"
  (is "?absent \<and> ?ids_only \<and> ?both \<and> ?found \<and> ?nothing \<and> ?fell_back")
proof -
  let ?tenant_only = "\<lparr>topK = Some 3, subjectId = None, dataSourceIds = None\<rparr>"
  let ?by_source = "\<lparr>topK = Some 3, subjectId = None, dataSourceIds = Some [source_uuid]\<rparr>"
  let ?by_subject = "\<lparr>topK = Some 3, subjectId = Some subject_uuid, dataSourceIds = None\<rparr>"
  let ?by_both = "\<lparr>topK = Some 3, subjectId = Some subject_uuid,
      dataSourceIds = Some [source_uuid]\<rparr>"
  have missing: "\<exists>collections.
      showCollections_r (example_env\<lparr>showCollections_r := \<lambda>n. Inr []\<rparr>) (clock world0)
        = Inr collections \<and> COLLECTION_NAME \<notin> set collections"
    by simp
  with searchMilvus_empty_not_error
      [of "example_env\<lparr>showCollections_r := \<lambda>n. Inr []\<rparr>" "''q''" tenant_uuid ?tenant_only world0]
  have 1: ?absent
    by blast
  have no_source: "(\<forall>n r x. sr_filter r = build_filter tenant_uuid ?by_source
        \<longrightarrow> search_r tenant_rows_env n r = Inr x \<longrightarrow> no_results x)
      \<and> (has_ids ?by_source \<and> truthy (subjectId ?by_source) \<longrightarrow>
           (\<forall>n r x. sr_filter r = build_filter tenant_uuid
                 \<lparr>topK = Some (topK_of ?by_source), subjectId = subjectId ?by_source,
                   dataSourceIds = None\<rparr>
             \<longrightarrow> search_r tenant_rows_env n r = Inr x \<longrightarrow> no_results x))"
    by (auto simp: tenant_rows_env_def build_filter_def no_results_def uuid_defs dq_def)
  with searchMilvus_empty_not_error [of tenant_rows_env "''q''" tenant_uuid ?by_source world0]
  have 2: ?ids_only
    by blast
  have no_match: "(\<forall>n r x. sr_filter r = build_filter tenant_uuid ?by_both
        \<longrightarrow> search_r example_env n r = Inr x \<longrightarrow> no_results x)
      \<and> (has_ids ?by_both \<and> truthy (subjectId ?by_both) \<longrightarrow>
           (\<forall>n r x. sr_filter r = build_filter tenant_uuid
                 \<lparr>topK = Some (topK_of ?by_both), subjectId = subjectId ?by_both,
                   dataSourceIds = None\<rparr>
             \<longrightarrow> search_r example_env n r = Inr x \<longrightarrow> no_results x))"
    by (auto simp: example_env_def no_results_def)
  with searchMilvus_empty_not_error [of example_env "''q''" tenant_uuid ?by_both world0]
  have 3: ?both
    by blast
  have rows: "showCollections_r tenant_rows_env (clock world0) = Inr [COLLECTION_NAME]
        \<and> COLLECTION_NAME \<in> set [COLLECTION_NAME]
        \<and> loadCollection_r tenant_rows_env (Suc (clock world0)) = Inr ()
        \<and> predict_r tenant_rows_env (Suc (Suc (clock world0))) (split_on CHR '';'' ''q'')
            = Inr ([1] # [])
        \<and> search_r tenant_rows_env (Suc (Suc (Suc (clock world0))))
             \<lparr>sr_vector = [1], sr_limit = topK_of ?tenant_only,
              sr_filter = build_filter tenant_uuid ?tenant_only\<rparr>
            = Inr (Some [\<lparr>r_id = 7, r_text = ''Chunk about chlorophyll.'',
                           r_score = 2, r_metadata = []\<rparr>])"
    by (simp add: tenant_rows_env_def example_env_def build_filter_def)
  have "\<not> no_results (Some [\<lparr>r_id = 7, r_text = ''Chunk about chlorophyll.'',
                           r_score = 2, r_metadata = []\<rparr>])"
    by (simp add: no_results_def)
  with rows searchMilvus_empty_not_error [of tenant_rows_env "''q''" tenant_uuid ?tenant_only world0]
  have "fst (searchMilvus tenant_rows_env ''q'' tenant_uuid ?tenant_only world0)
      = Inr (hits_of (Some [\<lparr>r_id = 7, r_text = ''Chunk about chlorophyll.'',
                           r_score = 2, r_metadata = []\<rparr>]))"
    by blast
  then have 4: ?found
    by (simp add: hits_of_def to_hit_def)
  have none: "showCollections_r example_env (clock world0) = Inr [COLLECTION_NAME]
        \<and> COLLECTION_NAME \<in> set [COLLECTION_NAME]
        \<and> loadCollection_r example_env (Suc (clock world0)) = Inr ()
        \<and> predict_r example_env (Suc (Suc (clock world0))) (split_on CHR '';'' ''q'')
            = Inr ([1] # [])
        \<and> search_r example_env (Suc (Suc (Suc (clock world0))))
             \<lparr>sr_vector = [1], sr_limit = topK_of ?by_subject,
              sr_filter = build_filter tenant_uuid ?by_subject\<rparr>
            = Inr (Some [])"
    by (simp add: example_env_def)
  have unscoped: "no_results (Some []) \<and> \<not> (has_ids ?by_subject \<and> truthy (subjectId ?by_subject))"
    by (simp add: no_results_def)
  from none unscoped
    searchMilvus_empty_not_error [of example_env "''q''" tenant_uuid ?by_subject world0]
  have 5: ?nothing
    by blast
  have legacy: "showCollections_r legacy_env (clock world0) = Inr [COLLECTION_NAME]
        \<and> COLLECTION_NAME \<in> set [COLLECTION_NAME]
        \<and> loadCollection_r legacy_env (Suc (clock world0)) = Inr ()
        \<and> predict_r legacy_env (Suc (Suc (clock world0))) (split_on CHR '';'' ''q'')
            = Inr ([1] # [])
        \<and> search_r legacy_env (Suc (Suc (Suc (clock world0))))
             \<lparr>sr_vector = [1], sr_limit = topK_of ?by_both,
              sr_filter = build_filter tenant_uuid ?by_both\<rparr>
            = Inr (Some [])"
    by (simp add: legacy_env_def example_env_def build_filter_def uuid_defs dq_def)
  have scoped: "no_results (Some []) \<and> has_ids ?by_both \<and> truthy (subjectId ?by_both)"
    by (simp add: no_results_def has_ids_def subject_uuid_def)
  from legacy scoped
    searchMilvus_empty_not_error [of legacy_env "''q''" tenant_uuid ?by_both world0]
  have "searchMilvus legacy_env ''q'' tenant_uuid ?by_both world0
      = searchMilvus legacy_env ''q'' tenant_uuid
          \<lparr>topK = Some (topK_of ?by_both), subjectId = subjectId ?by_both, dataSourceIds = None\<rparr>
          (world0\<lparr>clock := clock world0 + 4,
             log := log world0 @ [ShowCollections, LoadCollection,
                      Predict (split_on CHR '';'' ''q''),
                      Search \<lparr>sr_vector = [1], sr_limit = topK_of ?by_both,
                              sr_filter = build_filter tenant_uuid ?by_both\<rparr>,
                      ConsoleLog fallback_message]\<rparr>)"
    by blast
  then have 6: ?fell_back
    by (simp add: legacy_env_def uuid_defs searchMilvus.simps io_defs prim_defs search_defs
        example_defs)
  from 1 2 3 4 5 6 show ?thesis
    by blast
qed

text \<open>
  Claim C5 as stated fails: a data source and a subject are given, the store finds no row
  for the filter of the run, and \<^verbatim>\<open>searchMilvus\<close> returns the row that its second search,
  under the subject filter, found.
\<close>

theorem searchMilvus_fallback_rows_counterexample:
  "build_filter tenant_uuid
       \<lparr>topK = Some 3, subjectId = Some subject_uuid, dataSourceIds = Some [source_uuid]\<rparr>
     = ''user_id == '' @ dq @ tenant_uuid @ dq
         @ '' && (data_source_id == '' @ dq @ source_uuid @ dq @ '')''
   \<and> search_r legacy_env 3
       \<lparr>sr_vector = [23], sr_limit = 3,
        sr_filter = ''user_id == '' @ dq @ tenant_uuid @ dq
          @ '' && (data_source_id == '' @ dq @ source_uuid @ dq @ '')''\<rparr>
     = Inr (Some [])
   \<and> fst (searchMilvus legacy_env ''What is photosynthesis?'' tenant_uuid
            \<lparr>topK = Some 3, subjectId = Some subject_uuid, dataSourceIds = Some [source_uuid]\<rparr>
            world0)
     = Inr [\<lparr>h_text = ''Legacy chunk about photosynthesis.'', h_score = 1, h_metadata = []\<rparr>]
   \<and> log (snd (searchMilvus legacy_env ''What is photosynthesis?'' tenant_uuid
            \<lparr>topK = Some 3, subjectId = Some subject_uuid, dataSourceIds = Some [source_uuid]\<rparr>
            world0))
     = [ShowCollections, LoadCollection, Predict [''What is photosynthesis?''],
        Search \<lparr>sr_vector = [23], sr_limit = 3,
          sr_filter = ''user_id == '' @ dq @ tenant_uuid @ dq
            @ '' && (data_source_id == '' @ dq @ source_uuid @ dq @ '')''\<rparr>,
        ConsoleLog fallback_message,
        ShowCollections, LoadCollection, Predict [''What is photosynthesis?''],
        Search \<lparr>sr_vector = [23], sr_limit = 3,
          sr_filter = ''user_id == '' @ dq @ tenant_uuid @ dq
            @ '' && subject_id == '' @ dq @ subject_uuid @ dq\<rparr>]"
  by (simp add: legacy_env_def uuid_defs searchMilvus.simps io_defs prim_defs search_defs
      example_defs)

section \<open>The embedding client\<close>

lemma split_on_not_Nil: "split_on d s \<noteq> []"
  by (induction s) (auto split: list.splits)

lemma hd_split_on: "hd (split_on d s) = takeWhile (\<lambda>c. c \<noteq> d) s"
  by (induction s) (auto split: list.splits simp: split_on_not_Nil)

lemma split_on_Cons: "split_on d s = takeWhile (\<lambda>c. c \<noteq> d) s # tl (split_on d s)"
  using hd_split_on[of d s] split_on_not_Nil[of d s] by (cases "split_on d s") auto

lemma takeWhile_shorter: "d \<in> set s \<Longrightarrow> length (takeWhile (\<lambda>c. c \<noteq> d) s) < length s"
  by (induction s) auto

lemma getEmbeddings_model:
  assumes "predict_r env (clock w) (split_on CHR '';'' texts) = Inr (map model (split_on CHR '';'' texts))"
  shows "getEmbeddings env texts w =
     (Inr (Some (model (takeWhile (\<lambda>c. c \<noteq> CHR '';'') texts))),
      tick (Predict (split_on CHR '';'' texts)) w)"
proof -
  have "map model (split_on CHR '';'' texts)
      = model (takeWhile (\<lambda>c. c \<noteq> CHR '';'') texts) # map model (tl (split_on CHR '';'' texts))"
    by (subst split_on_Cons) simp
  with assms show ?thesis
    by (simp add: getEmbeddings_def predict_def io_bind_def request_def io_return_def)
qed

lemma embed_bind_inv:
  assumes "io_inv I (getEmbeddings env t)"
    and "io_results (getEmbeddings env t) R"
    and "\<And>x. R x \<Longrightarrow> io_inv I (f x)"
  shows "io_inv I (io_bind (getEmbeddings env t) f)"
  unfolding io_inv_def
proof (intro allI impI)
  fix w assume "I w"
  with assms(1) have 1: "I (snd (getEmbeddings env t w))" by (simp add: io_inv_def)
  show "I (snd (io_bind (getEmbeddings env t) f w))"
  proof (cases "getEmbeddings env t w")
    case (Pair r w1)
    with 1 have w1: "I w1" by simp
    show ?thesis
    proof (cases r)
      case (Inl e)
      with Pair w1 show ?thesis by (simp add: io_bind_def)
    next
      case (Inr x)
      with Pair assms(2) have "R x" unfolding io_results_def by (metis fst_conv)
      from assms(3)[OF this] w1 have "I (snd (f x w1))" by (simp add: io_inv_def)
      with Pair Inr show ?thesis by (simp add: io_bind_def)
    qed
  qed
qed

lemma getEmbeddings_results_model:
  assumes "\<forall>n instances. predict_r env n instances = Inr (map model instances)"
  shows "io_results (getEmbeddings env t)
     (\<lambda>x. x = Some (model (takeWhile (\<lambda>c. c \<noteq> CHR '';'') t)))"
  unfolding io_results_def
  using getEmbeddings_model[of env _ t model] assms by simp

lemma searchMilvus_vector_no_ids:
  assumes calls: "\<And>c w. plain_call c \<Longrightarrow> I w \<Longrightarrow> I (tick c w)"
    and embed: "io_results (getEmbeddings env queryText) (\<lambda>x. x = Some v0)"
    and search: "\<And>w k f. I w \<Longrightarrow>
        I (tick (Search \<lparr>sr_vector = v0, sr_limit = k, sr_filter = f\<rparr>) w)"
    and no_ids: "\<not> has_ids options"
  shows "io_inv I (searchMilvus env queryText userId options)"
  apply (subst searchMilvus.simps)
  apply (simp only: no_ids simp_thms if_False)
  apply (unfold client_showCollections_def)
  apply (intro io_inv_catch embed_bind_inv[where R = "\<lambda>x. x = Some v0"] io_inv_bind io_inv_if
      io_inv_return io_inv_request try_load_inv getEmbeddings_inv embed calls)
     apply (simp_all add: plain_call_def)
  apply (intro io_inv_catch io_inv_bind io_inv_if io_inv_return
      client_search_inv on_search_error_inv search calls)
   apply assumption+
  done

lemma searchMilvus_vector:
  assumes calls: "\<And>c w. plain_call c \<Longrightarrow> I w \<Longrightarrow> I (tick c w)"
    and embed: "io_results (getEmbeddings env queryText) (\<lambda>x. x = Some v0)"
    and search: "\<And>w k f. I w \<Longrightarrow>
        I (tick (Search \<lparr>sr_vector = v0, sr_limit = k, sr_filter = f\<rparr>) w)"
    and logs: "\<And>w. I w \<Longrightarrow> I (w\<lparr>log := log w @ [ConsoleLog fallback_message]\<rparr>)"
  shows "io_inv I (searchMilvus env queryText userId options)"
  apply (subst searchMilvus.simps)
  apply (unfold client_showCollections_def)
  apply (intro io_inv_catch embed_bind_inv[where R = "\<lambda>x. x = Some v0"] io_inv_bind io_inv_if
      io_inv_return io_inv_request try_load_inv getEmbeddings_inv embed calls)
     apply (simp_all add: plain_call_def split del: if_split)
  apply (intro io_inv_catch io_inv_bind io_inv_if io_inv_return io_inv_console_log
      client_search_inv on_search_error_inv searchMilvus_vector_no_ids[where ?v0.0 = v0]
      embed search logs calls)
        apply (simp_all add: plain_call_def)
  done

lemma searchMilvus_vector_of_prefix:
  assumes per_instance: "\<forall>n instances. predict_r env n instances = Inr (map model instances)"
    and "Search r \<in> set (log (snd (searchMilvus env queryText userId options w)))"
    and "Search r \<notin> set (log w)"
  shows "sr_vector r = model (takeWhile (\<lambda>c. c \<noteq> CHR '';'') queryText)"
proof -
  define I where "I = (\<lambda>w'::world. \<forall>r. Search r \<in> set (log w') \<longrightarrow> Search r \<in> set (log w)
     \<or> sr_vector r = model (takeWhile (\<lambda>c. c \<noteq> CHR '';'') queryText))"
  have "io_inv I (searchMilvus env queryText userId options)"
  proof (rule searchMilvus_vector[OF _ getEmbeddings_results_model[OF per_instance]])
    show "I (tick c w')" if "plain_call c" and "I w'" for c w'
      using that by (auto simp: I_def tick_def plain_call_def)
    show "I (tick (Search \<lparr>sr_vector = model (takeWhile (\<lambda>c. c \<noteq> CHR '';'') queryText),
        sr_limit = k, sr_filter = f\<rparr>) w')"
      if "I w'" for w' k f
      using that by (auto simp: I_def tick_def)
    show "I (w'\<lparr>log := log w' @ [ConsoleLog fallback_message]\<rparr>)" if "I w'" for w'
      using that by (auto simp: I_def)
  qed
  moreover have "I w" by (simp add: I_def)
  ultimately have "I (snd (searchMilvus env queryText userId options w))"
    by (simp add: io_inv_def)
  with assms show ?thesis unfolding I_def by blast
qed

section \<open>Scope resolution of the query handler\<close>

lemma searchMilvus_inv_no_fallback:
  assumes calls: "\<And>c w. plain_call c \<Longrightarrow> I w \<Longrightarrow> I (tick c w)"
    and search: "\<And>w v. I w \<Longrightarrow>
        I (tick (Search \<lparr>sr_vector = v, sr_limit = topK_of options,
                          sr_filter = build_filter userId options\<rparr>) w)"
    and no_fallback: "\<not> (has_ids options \<and> truthy (subjectId options))"
  shows "io_inv I (searchMilvus env queryText userId options)"
  apply (subst searchMilvus.simps)
  apply (simp only: no_fallback if_False)
  apply (unfold client_showCollections_def)
  apply (intro io_inv_rules io_inv_case_option io_inv_request try_load_inv getEmbeddings_inv
      client_search_inv on_search_error_inv search calls)
  apply (simp_all add: plain_call_def)
  done

lemma searchMilvus_primary_only:
  assumes no_fallback: "\<not> (has_ids options \<and> truthy (subjectId options))"
    and "Search r \<in> set (log (snd (searchMilvus env queryText userId options w)))"
    and "Search r \<notin> set (log w)"
  shows "sr_filter r = build_filter userId options"
proof -
  define I where "I = (\<lambda>w'::world. \<forall>r. Search r \<in> set (log w') \<longrightarrow> Search r \<in> set (log w)
     \<or> sr_filter r = build_filter userId options)"
  have "io_inv I (searchMilvus env queryText userId options)"
  proof (rule searchMilvus_inv_no_fallback[OF _ _ no_fallback])
    show "I (tick c w')" if "plain_call c" and "I w'" for c w'
      using that by (auto simp: I_def tick_def plain_call_def)
    show "I (tick (Search \<lparr>sr_vector = v, sr_limit = topK_of options,
         sr_filter = build_filter userId options\<rparr>) w')"
      if "I w'" for w' v
      using that by (auto simp: I_def tick_def)
  qed
  moreover have "I w" by (simp add: I_def)
  ultimately have "I (snd (searchMilvus env queryText userId options w))"
    by (simp add: io_inv_def)
  with assms show ?thesis unfolding I_def by blast
qed

lemma resolve_options_no_search:
  "Search r \<in> set (log (snd (resolve_options env userId sid w))) \<Longrightarrow> Search r \<in> set (log w)"
  by (auto simp: resolve_options_def io_defs db_findMany_def split: option.splits sum.splits if_splits)

lemma resolve_options_result:
  assumes "fst (resolve_options env userId sid w) = Inr opts"
  shows "(\<not> truthy sid \<longrightarrow> opts = \<lparr>topK = Some 3, subjectId = None, dataSourceIds = None\<rparr>)
    \<and> (\<forall>s ids. sid = Some s \<and> s \<noteq> [] \<and> findMany_r env (clock w) userId s = Inr ids \<longrightarrow>
         opts = (if ids \<noteq> [] then \<lparr>topK = Some 3, subjectId = None, dataSourceIds = Some ids\<rparr>
                 else \<lparr>topK = Some 3, subjectId = Some s, dataSourceIds = None\<rparr>))"
  using assms
  by (auto simp: resolve_options_def io_defs db_findMany_def split: option.splits sum.splits if_splits)

lemma resolve_options_no_fallback:
  assumes "fst (resolve_options env userId sid w) = Inr opts"
  shows "\<not> (has_ids opts \<and> truthy (subjectId opts))"
  using assms
  by (auto simp: resolve_options_def io_defs db_findMany_def has_ids_def
      split: option.splits sum.splits if_splits list.splits)

lemma answer_from_no_search:
  "Search r \<in> set (log (snd (answer_from env query contextChunks w))) \<Longrightarrow> Search r \<in> set (log w)"
  by (auto simp: answer_from_def io_defs split: option.splits sum.splits list.splits)

lemma resolve_options_no_search':
  "resolve_options env userId sid w = (res, w') \<Longrightarrow> Search r \<in> set (log w')
     \<Longrightarrow> Search r \<in> set (log w)"
  using resolve_options_no_search[of r env userId sid w] by simp

lemma answer_from_no_search':
  "answer_from env query contextChunks w = (res, w') \<Longrightarrow> Search r \<in> set (log w')
     \<Longrightarrow> Search r \<in> set (log w)"
  using answer_from_no_search[of r env query contextChunks w] by simp

lemma answerUserQuery_searches:
  assumes "Search r \<in> set (log (snd (answerUserQuery env req w)))"
    and "Search r \<notin> set (log w)"
  shows "\<exists>opts. fst (resolve_options env (q_userId req) (q_subjectId req) w) = Inr opts
    \<and> Search r \<in> set (log (snd (searchMilvus env (the (q_query req)) (q_userId req) opts
          (snd (resolve_options env (q_userId req) (q_subjectId req) w)))))"
  using assms
  apply (simp add: answerUserQuery_def io_catch_def io_bind_def io_return_def
      split: if_splits prod.splits sum.splits)
  apply (auto dest: answer_from_no_search' resolve_options_no_search')
  done

text \<open>
  Claim C3. Every similarity search that a run of \<^verbatim>\<open>answerUserQuery\<close> sends carries the
  filter of the resolved scope: the tenant clause alone when no subject is given; the
  tenant clause and the disjunction of \<^verbatim>\<open>data_source_id\<close> equalities over the identifiers
  that \<^verbatim>\<open>findMany\<close> returned for the tenant and subject, when there is at least one; the
  tenant clause and the \<^verbatim>\<open>subject_id\<close> equality when a subject is given and no identifier
  is found.
\<close>

theorem answerUserQuery_primary_filter:
  assumes issued: "Search r \<in> set (log (snd (answerUserQuery env req w)))"
    and fresh: "Search r \<notin> set (log w)"
  shows "(\<not> truthy (q_subjectId req) \<longrightarrow>
            sr_filter r = ''user_id == '' @ dq @ q_userId req @ dq)
    \<and> (\<forall>s ids. q_subjectId req = Some s \<and> s \<noteq> []
            \<and> findMany_r env (clock w) (q_userId req) s = Inr ids \<longrightarrow>
          (ids \<noteq> [] \<longrightarrow>
             sr_filter r = ''user_id == '' @ dq @ q_userId req @ dq @ '' && (''
               @ join '' || '' (map (\<lambda>id. ''data_source_id == '' @ dq @ id @ dq) ids) @ '')'')
        \<and> (ids = [] \<longrightarrow>
             sr_filter r = ''user_id == '' @ dq @ q_userId req @ dq
               @ '' && subject_id == '' @ dq @ s @ dq))"
proof -
  from answerUserQuery_searches[OF issued fresh] obtain opts where
    opts: "fst (resolve_options env (q_userId req) (q_subjectId req) w) = Inr opts"
    and r: "Search r \<in> set (log (snd (searchMilvus env (the (q_query req)) (q_userId req) opts
          (snd (resolve_options env (q_userId req) (q_subjectId req) w)))))"
    by blast
  from fresh resolve_options_no_search
  have "Search r \<notin> set (log (snd (resolve_options env (q_userId req) (q_subjectId req) w)))"
    by blast
  with searchMilvus_primary_only[OF resolve_options_no_fallback[OF opts] r]
  have flt: "sr_filter r = build_filter (q_userId req) opts"
    by simp
  from resolve_options_result[OF opts] flt show ?thesis
    by (auto simp: build_filter_def neq_Nil_conv)
qed

lemmas handler_defs = answerUserQuery_def resolve_options_def answer_from_def

theorem answerUserQuery_primary_filter_witness:
  "Search \<lparr>sr_vector = [23], sr_limit = 3,
      sr_filter = ''user_id == '' @ dq @ ''u1'' @ dq @ '' && (''
        @ ''data_source_id == '' @ dq @ ''d1'' @ dq @ '' || ''
        @ ''data_source_id == '' @ dq @ ''d2'' @ dq @ '')''\<rparr>
     \<in> set (log (snd (answerUserQuery (example_env\<lparr>findMany_r := \<lambda>n u s. Inr [''d1'', ''d2'']\<rparr>)
           example_request world0)))
   \<and> Search \<lparr>sr_vector = [23], sr_limit = 3,
      sr_filter = ''user_id == '' @ dq @ ''u1'' @ dq @ '' && subject_id == '' @ dq @ ''s1'' @ dq\<rparr>
     \<in> set (log (snd (answerUserQuery example_env example_request world0)))
   \<and> Search \<lparr>sr_vector = [23], sr_limit = 3, sr_filter = ''user_id == '' @ dq @ ''u1'' @ dq\<rparr>
     \<in> set (log (snd (answerUserQuery example_env (example_request\<lparr>q_subjectId := None\<rparr>) world0)))"
  (is "?A \<and> ?B \<and> ?C")
proof -
  have a: ?A
    by (simp add: handler_defs searchMilvus.simps io_defs prim_defs search_defs example_defs
        example_request_def)
  have b: ?B
    by (simp add: handler_defs searchMilvus.simps io_defs prim_defs search_defs example_defs
        example_request_def)
  have c: ?C
    by (simp add: handler_defs searchMilvus.simps io_defs prim_defs search_defs example_defs
        example_request_def)
  have fresh: "Search r \<notin> set (log world0)" for r
    by (simp add: world0_def)
  from answerUserQuery_primary_filter [OF a fresh]
    answerUserQuery_primary_filter [OF b fresh]
    answerUserQuery_primary_filter [OF c fresh] a b c
  show ?thesis by simp
qed

section \<open>The subject fallback\<close>

lemma searchMilvus_hoare:
  assumes calls: "\<And>c w. plain_call c \<Longrightarrow> P w \<Longrightarrow> P (tick c w)"
    and search: "\<And>r w. P w \<Longrightarrow> P (tick (Search r) w)"
    and calls': "\<And>c w. plain_call c \<Longrightarrow> Q w \<Longrightarrow> Q (tick c w)"
    and search': "\<And>r w. Q w \<Longrightarrow> Q (tick (Search r) w)"
    and logs: "\<And>w. P w \<Longrightarrow> Q (w\<lparr>log := log w @ [ConsoleLog fallback_message]\<rparr>)"
    and weaken: "\<And>w. P w \<Longrightarrow> Q w"
  shows "io_hoare P (searchMilvus env queryText userId options) Q"
  apply (subst searchMilvus.simps)
  apply (rule io_hoare_catch_post)
   apply (rule io_hoare_bind_inv)
     apply (unfold client_showCollections_def, rule io_inv_request, rule calls, simp add: plain_call_def, assumption)
    apply (rule io_hoare_if)
     apply (rule io_hoare_return, erule weaken)
    apply (rule io_hoare_bind_inv)
      apply (rule try_load_inv, erule calls, assumption)
     apply (rule io_hoare_if)
      apply (rule io_hoare_return, erule weaken)
     apply (rule io_hoare_bind_inv)
       apply (rule getEmbeddings_inv, erule calls, assumption)
      apply (rule io_hoare_case_option)
       apply (rule io_hoare_return, erule weaken)
      apply (rule io_hoare_catch_post)
       apply (rule io_hoare_bind_inv)
         apply (rule client_search_inv, erule search)
        apply (rule io_hoare_if)
         apply (rule io_hoare_if)
          apply (rule io_hoare_bind_post)
           apply (rule io_hoare_console_log, erule logs)
          apply (rule searchMilvus_inv_no_ids)
            apply (erule calls', assumption)
           apply (erule search')
          apply simp
         apply (rule io_hoare_return, erule weaken)
        apply (rule io_hoare_return, erule weaken)
       apply (erule weaken)
      apply (rule on_search_error_inv)
       apply (erule calls', assumption)
      apply (erule search')
     apply (erule weaken)
    apply (erule weaken)
   apply (erule weaken)
  apply (rule io_inv_return)
  done

lemma fallbacks_tick: "c \<noteq> ConsoleLog fallback_message \<Longrightarrow> fallbacks (tick c w) = fallbacks w"
  by (simp add: fallbacks_def tick_def)

lemma searchMilvus_fallback_at_most_once:
  "fallbacks (snd (searchMilvus env queryText userId options w)) \<le> Suc (fallbacks w)"
proof -
  have "io_hoare (\<lambda>w'. fallbacks w' = fallbacks w)
          (searchMilvus env queryText userId options) (\<lambda>w'. fallbacks w' \<le> Suc (fallbacks w))"
    by (rule searchMilvus_hoare
          [where P = "\<lambda>w'. fallbacks w' = fallbacks w"
             and Q = "\<lambda>w'. fallbacks w' \<le> Suc (fallbacks w)"])
      (auto simp: fallbacks_def tick_def plain_call_def)
  then show ?thesis by (simp add: io_hoare_def)
qed

text \<open>With both options given and an empty first result, \<^verbatim>\<open>searchMilvus\<close> falls back exactly once.\<close>

lemma searchMilvus_no_ids_keeps_fallbacks:
  assumes "\<not> has_ids options"
  shows "fallbacks (snd (searchMilvus env queryText userId options w)) = fallbacks w"
proof -
  have "io_inv (\<lambda>w'. fallbacks w' = fallbacks w) (searchMilvus env queryText userId options)"
    by (rule searchMilvus_inv_no_ids[OF _ _ assms])
      (auto simp: fallbacks_def tick_def plain_call_def)
  then show ?thesis by (simp add: io_inv_def)
qed

lemma searchMilvus_fallback_once:
  assumes lists: "showCollections_r env (clock w) = Inr collections"
    and exists: "COLLECTION_NAME \<in> set collections"
    and loads: "loadCollection_r env (Suc (clock w)) = Inr ()"
    and embeds: "predict_r env (Suc (Suc (clock w))) (split_on CHR '';'' queryText) = Inr (v # vs)"
    and searches: "search_r env (Suc (Suc (Suc (clock w))))
        \<lparr>sr_vector = v, sr_limit = topK_of options, sr_filter = build_filter userId options\<rparr>
      = Inr searchResults"
    and nothing: "no_results searchResults"
    and ids: "has_ids options"
    and subject: "truthy (subjectId options)"
  shows "fallbacks (snd (searchMilvus env queryText userId options w)) = Suc (fallbacks w)"
proof -
  let ?opts = "\<lparr>topK = Some (topK_of options), subjectId = subjectId options,
      dataSourceIds = None\<rparr>"
  let ?w4 = "tick (Search \<lparr>sr_vector = v, sr_limit = topK_of options,
        sr_filter = build_filter userId options\<rparr>)
      (tick (Predict (split_on CHR '';'' queryText))
        (tick LoadCollection (tick ShowCollections w)))"
  let ?w5 = "?w4\<lparr>log := log ?w4 @ [ConsoleLog fallback_message]\<rparr>"
  from searchMilvus_total[of env queryText userId ?opts]
  obtain hits where "fst (searchMilvus env queryText userId ?opts ?w5) = Inr hits"
    unfolding io_total_def by blast
  then obtain w6 where again: "searchMilvus env queryText userId ?opts ?w5 = (Inr hits, w6)"
    by (cases "searchMilvus env queryText userId ?opts ?w5") simp
  have "snd (searchMilvus env queryText userId options w) = w6"
    apply (subst searchMilvus.simps)
    using assms again
    apply (simp add: io_defs prim_defs try_load_def getEmbeddings_def)
    done
  moreover from searchMilvus_no_ids_keeps_fallbacks[of ?opts env queryText userId ?w5] again
  have "fallbacks w6 = fallbacks ?w5"
    by simp
  moreover have "fallbacks ?w5 = Suc (fallbacks w)"
    by (simp add: fallbacks_def tick_def)
  ultimately show ?thesis by simp
qed

section \<open>A query whose embedding fails\<close>








section \<open>A query on a subject with data sources and subject-tagged rows\<close>

text \<open>
  Claim C4, evaluated. A tenant asks about a subject that has one data source in the
  relational store, while the collection holds a row of the tenant tagged with the subject
  only. \<^verbatim>\<open>answerUserQuery\<close> hands \<^verbatim>\<open>searchMilvus\<close> the data source identifiers without the
  subject: the one search, under the identifier filter, finds nothing, no search under the
  subject filter follows, and the answer is that nothing relevant was found. The same
  \<^verbatim>\<open>searchMilvus\<close> call with the subject passed along falls back and returns the row.
\<close>

theorem answerUserQuery_skips_subject_fallback:
  "fst (answerUserQuery legacy_env legacy_request world0)
     = Inr \<lparr>res_status = 200, res_success = True, res_body = no_context_answer,
            res_relevanceScore = Some 0\<rparr>
   \<and> log (snd (answerUserQuery legacy_env legacy_request world0))
     = [FindMany tenant_uuid subject_uuid, ShowCollections, LoadCollection,
        Predict [''What is photosynthesis?''],
        Search \<lparr>sr_vector = [23], sr_limit = 3,
          sr_filter = ''user_id == '' @ dq @ tenant_uuid @ dq
            @ '' && (data_source_id == '' @ dq @ source_uuid @ dq @ '')''\<rparr>]
   \<and> fst (searchMilvus legacy_env ''What is photosynthesis?'' tenant_uuid
            \<lparr>topK = Some 3, subjectId = Some subject_uuid, dataSourceIds = Some [source_uuid]\<rparr>
            world0)
     = Inr [\<lparr>h_text = ''Legacy chunk about photosynthesis.'', h_score = 1, h_metadata = []\<rparr>]"
  by (simp add: legacy_env_def legacy_request_def uuid_defs handler_defs searchMilvus.simps
      io_defs prim_defs
      search_defs example_defs)

section \<open>Document ingestion\<close>

lemma getEmbeddings_world:
  "snd (getEmbeddings env t w) = tick (Predict (split_on CHR '';'' t)) w"
  by (simp add: getEmbeddings_def predict_def io_defs split: sum.splits)

lemma client_insert_cases:
  "client_insert env e w = (r, w') \<Longrightarrow>
     db_writes w' = db_writes w
     \<and> (case r of Inl err \<Rightarrow> chunks w' = chunks w | Inr u \<Rightarrow> chunks w' = chunks w @ [e])"
  by (auto simp: client_insert_def tick_def split: sum.splits)

lemma insert_loop_chunks:
  "\<exists>ins. chunks (snd (insert_loop env documents userId metadata w)) = chunks w @ ins
     \<and> subseq (map e_text ins) (map pageContent documents)
     \<and> (\<forall>e\<in>set ins. user_id e = userId \<and> data_source_id e = im_dataSourceId metadata)
     \<and> db_writes (snd (insert_loop env documents userId metadata w)) = db_writes w"
proof (induction documents arbitrary: w)
  case Nil
  show ?case by (simp add: io_return_def)
next
  case (Cons d documents)
  obtain r w1 where g: "getEmbeddings env (pageContent d) w = (r, w1)"
    by (cases "getEmbeddings env (pageContent d) w")
  with getEmbeddings_world[of env "pageContent d" w]
  have w1: "chunks w1 = chunks w" "db_writes w1 = db_writes w"
    by (simp_all add: tick_def)
  show ?case
  proof (cases r)
    case (Inl e)
    with g w1 show ?thesis by (simp add: io_bind_def)
  next
    case (Inr embedding)
    show ?thesis
    proof (cases embedding)
      case None
      from Cons.IH[of w1] obtain ins where
        "chunks (snd (insert_loop env documents userId metadata w1)) = chunks w1 @ ins"
        "subseq (map e_text ins) (map pageContent documents)"
        "\<forall>e\<in>set ins. user_id e = userId \<and> data_source_id e = im_dataSourceId metadata"
        "db_writes (snd (insert_loop env documents userId metadata w1)) = db_writes w1"
        by blast
      with g Inr None w1 show ?thesis
        by (auto simp: io_bind_def intro!: exI[of _ ins])
    next
      case (Some v)
      let ?e = "make_entity d v userId metadata"
      obtain r2 w2 where i: "client_insert env ?e w1 = (r2, w2)"
        by (cases "client_insert env ?e w1")
      note c = client_insert_cases[OF i]
      show ?thesis
      proof (cases r2)
        case (Inl err)
        with g Inr Some i c w1 show ?thesis by (simp add: io_bind_def)
      next
        case r2: (Inr u)
        from Cons.IH[of w2] obtain ins where ins:
          "chunks (snd (insert_loop env documents userId metadata w2)) = chunks w2 @ ins"
          "subseq (map e_text ins) (map pageContent documents)"
          "\<forall>e\<in>set ins. user_id e = userId \<and> data_source_id e = im_dataSourceId metadata"
          "db_writes (snd (insert_loop env documents userId metadata w2)) = db_writes w2"
          by blast
        have "e_text ?e = pageContent d" "user_id ?e = userId"
          "data_source_id ?e = im_dataSourceId metadata"
          by (simp_all add: make_entity_def)
        with g Inr Some i c r2 w1 ins show ?thesis
          by (auto simp: io_bind_def intro!: exI[of _ "?e # ins"])
      qed
    qed
  qed
qed

lemma insert_loop_all:
  assumes embeds: "\<forall>n t. \<exists>v vs. predict_r env n (split_on CHR '';'' t) = Inr (v # vs)"
    and inserts: "\<forall>n e. insert_r env n e = Inr ()"
  shows "\<exists>ins. chunks (snd (insert_loop env documents userId metadata w)) = chunks w @ ins
     \<and> map e_text ins = map pageContent documents"
proof (induction documents arbitrary: w)
  case Nil
  show ?case by (simp add: io_return_def)
next
  case (Cons d documents)
  from embeds obtain v vs where
    p: "predict_r env (clock w) (split_on CHR '';'' (pageContent d)) = Inr (v # vs)"
    by blast
  let ?w1 = "tick (Predict (split_on CHR '';'' (pageContent d))) w"
  let ?e = "make_entity d v userId metadata"
  let ?w2 = "(tick (Insert ?e) ?w1)\<lparr>chunks := chunks ?w1 @ [?e]\<rparr>"
  from p inserts have step: "insert_loop env (d # documents) userId metadata w
      = insert_loop env documents userId metadata ?w2"
    by (simp add: getEmbeddings_def predict_def io_defs client_insert_def)
  have c2: "chunks ?w2 = chunks w @ [?e]"
    by (simp add: tick_def)
  from Cons.IH[of ?w2] obtain ins where
    ins: "chunks (snd (insert_loop env documents userId metadata ?w2)) = chunks ?w2 @ ins"
      "map e_text ins = map pageContent documents"
    by blast
  have "e_text ?e = pageContent d"
    by (simp add: make_entity_def)
  with ins c2 have "chunks (snd (insert_loop env documents userId metadata ?w2))
       = chunks w @ (?e # ins) \<and> map e_text (?e # ins) = map pageContent (d # documents)"
    by simp
  with step show ?case by (intro exI[of _ "?e # ins"]) simp
qed

lemma client_insert_inv:
  assumes "\<And>w. I w \<Longrightarrow> I (tick (Insert e) w)"
    and "\<And>w cs. I w \<Longrightarrow> I (w\<lparr>chunks := cs\<rparr>)"
  shows "io_inv I (client_insert env e)"
  using assms by (auto simp: io_inv_def client_insert_def split: sum.splits)

lemma db_update_inv:
  assumes "\<And>w. I w \<Longrightarrow> I (tick (Update d) w)"
    and "\<And>w ds. I w \<Longrightarrow> I (w\<lparr>db_writes := ds\<rparr>)"
  shows "io_inv I (db_update env d)"
  using assms by (auto simp: io_inv_def db_update_def split: sum.splits)

lemma getEmbeddings_inv_predict:
  assumes "\<And>instances w. I w \<Longrightarrow> I (tick (Predict instances) w)"
  shows "io_inv I (getEmbeddings env t)"
  unfolding getEmbeddings_def predict_def
  by (intro io_inv_bind io_inv_return io_inv_request assms)

lemma insert_loop_inv:
  assumes predicts: "\<And>instances w. I w \<Longrightarrow> I (tick (Predict instances) w)"
    and inserts: "\<And>e w. I w \<Longrightarrow> I (tick (Insert e) w)"
    and stored: "\<And>w cs. I w \<Longrightarrow> I (w\<lparr>chunks := cs\<rparr>)"
  shows "io_inv I (insert_loop env documents userId metadata)"
proof (induction documents)
  case Nil
  show ?case by (simp add: io_inv_return)
next
  case (Cons d documents)
  show ?case
    unfolding insert_loop.simps
    by (intro io_inv_bind io_inv_case_option getEmbeddings_inv_predict client_insert_inv Cons.IH
        predicts inserts stored)
qed

lemma insertEmbeddings_inv:
  assumes predicts: "\<And>instances w. I w \<Longrightarrow> I (tick (Predict instances) w)"
    and inserts: "\<And>e w. I w \<Longrightarrow> I (tick (Insert e) w)"
    and stored: "\<And>w cs. I w \<Longrightarrow> I (w\<lparr>chunks := cs\<rparr>)"
  shows "io_inv I (insertEmbeddings env documents userId metadata)"
  unfolding insertEmbeddings_def
  by (intro io_inv_catch io_inv_return insert_loop_inv predicts inserts stored)

lemma extract_response_inv:
  "io_inv I (case response of
              None \<Rightarrow> io_throw a
            | Some [] \<Rightarrow> io_throw b
            | Some (None # x) \<Rightarrow> io_return []
            | Some (Some [] # x) \<Rightarrow> io_throw c
            | Some (Some (t # ts) # x) \<Rightarrow> io_return t)"
  by (simp add: io_inv_return io_inv_throw split: option.splits list.splits)

lemma extractTextFromDocument_inv:
  assumes "\<And>w. I w \<Longrightarrow> I (tick (ReadFile filePath) w)"
    and "\<And>d w. I w \<Longrightarrow> I (tick (ExtractGenerate d) w)"
  shows "io_inv I (extractTextFromDocument env filePath)"
  unfolding extractTextFromDocument_def
  by (intro io_inv_rules io_inv_request extract_response_inv assms)

lemma extractTextFromDocument_reads_once:
  assumes generate: "\<And>d w. Q w \<Longrightarrow> Q (tick (ExtractGenerate d) w)"
    and read: "\<And>w. P w \<Longrightarrow> Q (tick (ReadFile filePath) w)"
    and weaken: "\<And>w. P w \<Longrightarrow> Q w"
  shows "io_hoare P (extractTextFromDocument env filePath) Q"
  unfolding extractTextFromDocument_def
  apply (rule io_hoare_catch_post)
   apply (rule io_hoare_if)
    apply (rule io_hoare_throw, erule weaken)
   apply (rule io_hoare_bind_post)
    apply (rule io_hoare_request, erule read)
   apply (intro io_inv_bind io_inv_request extract_response_inv generate)
   apply assumption
  apply (rule io_inv_throw)
  done

lemma processFileAsync_reads_once:
  "count_list (log (snd (processFileAsync env filePath dataSourceId userId w))) (ReadFile filePath)
     \<le> Suc (count_list (log w) (ReadFile filePath))"
proof -
  let ?P = "\<lambda>w'. count_list (log w') (ReadFile filePath) = count_list (log w) (ReadFile filePath)"
  let ?Q = "\<lambda>w'. count_list (log w') (ReadFile filePath) \<le> Suc (count_list (log w) (ReadFile filePath))"
  have "io_hoare ?P (processFileAsync env filePath dataSourceId userId) ?Q"
    unfolding processFileAsync_def db_findUnique_def
    apply (rule io_hoare_catch_post)
     apply (rule io_hoare_bind_inv)
       apply (rule io_inv_request, simp add: tick_def)
      apply (rule io_hoare_bind_post)
       apply (rule extractTextFromDocument_reads_once)
         apply (simp_all add: tick_def)[3]
      apply (intro io_inv_bind insertEmbeddings_inv db_update_inv)
          apply (simp_all add: tick_def)[6]
    apply (intro io_inv_bind io_inv_throw db_update_inv)
     apply (simp_all add: tick_def)
    done
  then show ?thesis by (simp add: io_hoare_def)
qed

lemma processFileAsync_split:
  "processFileAsync env filePath dataSourceId userId =
     io_catch (ingest_steps env filePath dataSourceId userId) (ingest_failed env dataSourceId)"
  unfolding processFileAsync_def ingest_steps_def ingest_failed_def ..

lemma map_pageContent_number_chunks: "map pageContent (number_chunks xs) = xs"
proof -
  have "map pageContent (map (\<lambda>(index, chunk). \<lparr>pageContent = chunk, chunk_id = index\<rparr>)
          (enumerate n xs)) = xs" for n
    by (induction xs arbitrary: n) simp_all
  then show ?thesis by (simp add: number_chunks_def)
qed

lemma snd_catch_return: "snd (io_catch m (\<lambda>e. io_return x) w) = snd (m w)"
  by (simp add: io_catch_def io_return_def split: prod.splits sum.splits)

lemma insertEmbeddings_returns: "fst (insertEmbeddings env documents userId metadata w) = Inr ()"
  by (simp add: insertEmbeddings_def io_catch_def io_return_def split: prod.splits sum.splits)

lemma insertEmbeddings_chunks:
  "\<exists>ins. chunks (snd (insertEmbeddings env documents userId metadata w)) = chunks w @ ins
     \<and> subseq (map e_text ins) (map pageContent documents)
     \<and> (\<forall>e\<in>set ins. user_id e = userId \<and> data_source_id e = im_dataSourceId metadata)
     \<and> db_writes (snd (insertEmbeddings env documents userId metadata w)) = db_writes w"
  unfolding insertEmbeddings_def snd_catch_return by (rule insert_loop_chunks)

lemma insertEmbeddings_all:
  assumes "\<forall>n t. \<exists>v vs. predict_r env n (split_on CHR '';'' t) = Inr (v # vs)"
    and "\<forall>n e. insert_r env n e = Inr ()"
  shows "\<exists>ins. chunks (snd (insertEmbeddings env documents userId metadata w)) = chunks w @ ins
     \<and> map e_text ins = map pageContent documents"
  unfolding insertEmbeddings_def snd_catch_return by (rule insert_loop_all[OF assms])

lemma extractTextFromDocument_frame:
  "chunks (snd (extractTextFromDocument env filePath w)) = chunks w
   \<and> db_writes (snd (extractTextFromDocument env filePath w)) = db_writes w"
proof -
  have "io_inv (\<lambda>w'. chunks w' = chunks w \<and> db_writes w' = db_writes w)
          (extractTextFromDocument env filePath)"
    by (rule extractTextFromDocument_inv) (simp_all add: tick_def)
  then show ?thesis by (simp add: io_inv_def)
qed

lemma db_update_cases:
  "db_update env d w = (r, w') \<Longrightarrow>
     chunks w' = chunks w
     \<and> (case r of Inl err \<Rightarrow> db_writes w' = db_writes w | Inr u \<Rightarrow> db_writes w' = db_writes w @ [d])"
  by (auto simp: db_update_def tick_def split: sum.splits)

text \<open>What the \<^verbatim>\<open>try\<close> block leaves behind.\<close>

lemma ingest_steps_outcome:
  assumes run: "ingest_steps env filePath dataSourceId userId w = (r, w')"
  shows "\<exists>ins. chunks w' = chunks w @ ins
     \<and> (\<forall>e\<in>set ins. user_id e = userId \<and> data_source_id e = dataSourceId)
     \<and> (case r of
          Inl error \<Rightarrow> db_writes w' = db_writes w
        | Inr u \<Rightarrow> \<exists>extractedText.
            fst (extractTextFromDocument env filePath (tick (FindUnique dataSourceId) w))
              = Inr extractedText
            \<and> db_writes w' = db_writes w @
                 [\<lparr>dw_id = dataSourceId, dw_content = extractedText, dw_status = COMPLETED\<rparr>]
            \<and> subseq (map e_text ins) (splitter env extractedText)
            \<and> ((\<forall>n t. \<exists>v vs. predict_r env n (split_on CHR '';'' t) = Inr (v # vs))
                 \<and> (\<forall>n e. insert_r env n e = Inr ())
                \<longrightarrow> map e_text ins = splitter env extractedText))"
proof -
  let ?w1 = "tick (FindUnique dataSourceId) w"
  have w1: "chunks ?w1 = chunks w" "db_writes ?w1 = db_writes w"
    by (simp_all add: tick_def)
  show ?thesis
  proof (cases "findUnique_r env (clock w) dataSourceId")
    case (Inl e)
    with run w1 show ?thesis
      by (auto simp: ingest_steps_def db_findUnique_def io_bind_def request_def)
  next
    case lookup: (Inr dataSource)
    obtain r2 w2 where ex: "extractTextFromDocument env filePath ?w1 = (r2, w2)"
      by (cases "extractTextFromDocument env filePath ?w1")
    with extractTextFromDocument_frame[of env filePath ?w1] w1
    have w2: "chunks w2 = chunks w" "db_writes w2 = db_writes w"
      by simp_all
    show ?thesis
    proof (cases r2)
      case (Inl e)
      with run lookup ex w2 show ?thesis
        by (auto simp: ingest_steps_def db_findUnique_def io_bind_def request_def)
    next
      case extracted: (Inr extractedText)
      let ?meta = "\<lparr>im_subjectId = subject_of dataSource, im_dataSourceId = dataSourceId\<rparr>"
      let ?docs = "number_chunks (splitter env extractedText)"
      obtain w3 where ins_run: "insertEmbeddings env ?docs userId ?meta w2 = (Inr (), w3)"
        using insertEmbeddings_returns[of env ?docs userId ?meta w2]
        by (cases "insertEmbeddings env ?docs userId ?meta w2") simp
      from insertEmbeddings_chunks[of env ?docs userId ?meta w2] w2 ins_run obtain ins where
        ins: "chunks w3 = chunks w @ ins"
          "subseq (map e_text ins) (splitter env extractedText)"
          "\<forall>e\<in>set ins. user_id e = userId \<and> data_source_id e = dataSourceId"
          "db_writes w3 = db_writes w"
        by (auto simp: map_pageContent_number_chunks)
      have full: "map e_text ins = splitter env extractedText"
        if "\<forall>n t. \<exists>v vs. predict_r env n (split_on CHR '';'' t) = Inr (v # vs)"
          and "\<forall>n e. insert_r env n e = Inr ()"
        using insertEmbeddings_all[OF that, of ?docs userId ?meta w2] ins(1) w2 ins_run
        by (auto simp: map_pageContent_number_chunks)
      let ?d = "\<lparr>dw_id = dataSourceId, dw_content = extractedText, dw_status = COMPLETED\<rparr>"
      from run lookup ex extracted ins_run have upd: "db_update env ?d w3 = (r, w')"
        by (simp add: ingest_steps_def db_findUnique_def io_bind_def request_def)
      note u = db_update_cases[OF upd]
      show ?thesis
      proof (cases r)
        case (Inl e)
        with u ins show ?thesis by auto
      next
        case (Inr u')
        with u ins full ex extracted show ?thesis
          by (intro exI[of _ ins]) auto
      qed
    qed
  qed
qed

lemma ingest_failed_outcome:
  assumes run: "ingest_failed env dataSourceId error w = (r, w')"
  shows "\<exists>e. r = Inl e \<and> chunks w' = chunks w
     \<and> (db_writes w' = db_writes w @
           [\<lparr>dw_id = dataSourceId, dw_content = ''Error processing: '' @ e, dw_status = ERROR\<rparr>]
        \<or> db_writes w' = db_writes w)"
proof -
  let ?d = "\<lparr>dw_id = dataSourceId, dw_content = ''Error processing: '' @ error,
              dw_status = ERROR\<rparr>"
  obtain r1 w1 where upd: "db_update env ?d w = (r1, w1)"
    by (cases "db_update env ?d w")
  note u = db_update_cases[OF upd]
  show ?thesis
  proof (cases r1)
    case (Inl e2)
    with run upd u show ?thesis
      by (auto simp: ingest_failed_def io_bind_def)
  next
    case (Inr x)
    with run upd u show ?thesis
      by (auto simp: ingest_failed_def io_bind_def io_throw_def)
  qed
qed


lemma ingest_failed_run:
  "ingest_failed env dataSourceId e wt =
     (case update_r env (clock wt)
             \<lparr>dw_id = dataSourceId, dw_content = ''Error processing: '' @ e, dw_status = ERROR\<rparr> of
        Inr u \<Rightarrow>
          (Inl e,
           (tick (Update \<lparr>dw_id = dataSourceId, dw_content = ''Error processing: '' @ e,
                           dw_status = ERROR\<rparr>) wt)
             \<lparr>db_writes := db_writes wt @
                [\<lparr>dw_id = dataSourceId, dw_content = ''Error processing: '' @ e,
                  dw_status = ERROR\<rparr>]\<rparr>)
      | Inl e2 \<Rightarrow>
          (Inl e2,
           tick (Update \<lparr>dw_id = dataSourceId, dw_content = ''Error processing: '' @ e,
                          dw_status = ERROR\<rparr>) wt))"
  by (simp add: ingest_failed_def db_update_def io_bind_def io_throw_def split: sum.splits)

lemma processFileAsync_caught:
  assumes "ingest_steps env filePath dataSourceId userId w = (Inl e, wt)"
    and "db_writes wt = db_writes w"
  shows "last (log (snd (processFileAsync env filePath dataSourceId userId w)))
       = Update \<lparr>dw_id = dataSourceId, dw_content = ''Error processing: '' @ e, dw_status = ERROR\<rparr>
     \<and> (case update_r env (clock wt)
               \<lparr>dw_id = dataSourceId, dw_content = ''Error processing: '' @ e, dw_status = ERROR\<rparr> of
          Inr u \<Rightarrow>
            fst (processFileAsync env filePath dataSourceId userId w) = Inl e
            \<and> db_writes (snd (processFileAsync env filePath dataSourceId userId w))
                = db_writes w @
                    [\<lparr>dw_id = dataSourceId, dw_content = ''Error processing: '' @ e,
                      dw_status = ERROR\<rparr>]
        | Inl e2 \<Rightarrow>
            fst (processFileAsync env filePath dataSourceId userId w) = Inl e2
            \<and> db_writes (snd (processFileAsync env filePath dataSourceId userId w)) = db_writes w)"
  using assms
  by (simp add: processFileAsync_split io_catch_def ingest_failed_run tick_def split: sum.splits)

lemma ingest_steps_throws:
  assumes "findUnique_r env (clock w) dataSourceId = Inl e \<and> wt = tick (FindUnique dataSourceId) w
      \<or> (\<exists>dataSource. findUnique_r env (clock w) dataSourceId = Inr dataSource
           \<and> extractTextFromDocument env filePath (tick (FindUnique dataSourceId) w) = (Inl e, wt))
      \<or> (\<exists>dataSource extractedText w2 w3.
           findUnique_r env (clock w) dataSourceId = Inr dataSource
           \<and> extractTextFromDocument env filePath (tick (FindUnique dataSourceId) w)
               = (Inr extractedText, w2)
           \<and> insertEmbeddings env (number_chunks (splitter env extractedText)) userId
                \<lparr>im_subjectId = subject_of dataSource, im_dataSourceId = dataSourceId\<rparr> w2
               = (Inr (), w3)
           \<and> update_r env (clock w3)
                \<lparr>dw_id = dataSourceId, dw_content = extractedText, dw_status = COMPLETED\<rparr> = Inl e
           \<and> wt = tick (Update \<lparr>dw_id = dataSourceId, dw_content = extractedText,
                                  dw_status = COMPLETED\<rparr>) w3)"
  shows "ingest_steps env filePath dataSourceId userId w = (Inl e, wt)"
  using assms
  by (auto simp: ingest_steps_def db_findUnique_def io_bind_def request_def db_update_def)

lemma ingest_steps_completes:
  assumes "findUnique_r env (clock w) dataSourceId = Inr dataSource"
    and "extractTextFromDocument env filePath (tick (FindUnique dataSourceId) w)
               = (Inr extractedText, w2)"
    and "insertEmbeddings env (number_chunks (splitter env extractedText)) userId
                \<lparr>im_subjectId = subject_of dataSource, im_dataSourceId = dataSourceId\<rparr> w2
               = (Inr (), w3)"
    and "update_r env (clock w3)
                \<lparr>dw_id = dataSourceId, dw_content = extractedText, dw_status = COMPLETED\<rparr> = Inr ()"
  shows "ingest_steps env filePath dataSourceId userId w =
     (Inr (), (tick (Update \<lparr>dw_id = dataSourceId, dw_content = extractedText,
                                  dw_status = COMPLETED\<rparr>) w3)
         \<lparr>db_writes := db_writes w3 @ [\<lparr>dw_id = dataSourceId, dw_content = extractedText,
                                  dw_status = COMPLETED\<rparr>]\<rparr>)"
  using assms
  by (auto simp: ingest_steps_def db_findUnique_def io_bind_def request_def db_update_def)

text \<open>
  Claim C7, as the code has it. A run applies at most one write to the data source. When
  it returns normally the write is the extracted text with status \<open>COMPLETED\<close>. When the
  lookup of the data source, the text extraction or the \<open>COMPLETED\<close> update throws an
  error, the last request of the run is the update to \<^verbatim>\<open>Error processing: <message>\<close> with
  status \<open>ERROR\<close>, where the message is that of the error thrown: when this update
  succeeds it is the one write of the run and the run rethrows that error; when it throws,
  nothing is written and the run throws the error of the update. When the lookup and the
  extraction succeed and the \<open>COMPLETED\<close> update succeeds, the run returns normally
  whatever the embedding and insert requests answer: their failures stay inside
  \<^verbatim>\<open>insertEmbeddings\<close>. The file is read at most once in a run.
\<close>

theorem processFileAsync_single_transition:
  "(case fst (processFileAsync env filePath dataSourceId userId w) of
      Inr u \<Rightarrow> \<exists>extractedText.
          fst (extractTextFromDocument env filePath (tick (FindUnique dataSourceId) w))
            = Inr extractedText
        \<and> db_writes (snd (processFileAsync env filePath dataSourceId userId w))
            = db_writes w @
                [\<lparr>dw_id = dataSourceId, dw_content = extractedText, dw_status = COMPLETED\<rparr>]
    | Inl error \<Rightarrow>
          db_writes (snd (processFileAsync env filePath dataSourceId userId w))
            = db_writes w @
                [\<lparr>dw_id = dataSourceId, dw_content = ''Error processing: '' @ error,
                  dw_status = ERROR\<rparr>]
        \<or> db_writes (snd (processFileAsync env filePath dataSourceId userId w)) = db_writes w)
   \<and> (\<forall>e wt.
        (findUnique_r env (clock w) dataSourceId = Inl e \<and> wt = tick (FindUnique dataSourceId) w
         \<or> (\<exists>dataSource. findUnique_r env (clock w) dataSourceId = Inr dataSource
              \<and> extractTextFromDocument env filePath (tick (FindUnique dataSourceId) w) = (Inl e, wt))
         \<or> (\<exists>dataSource extractedText w2 w3.
              findUnique_r env (clock w) dataSourceId = Inr dataSource
              \<and> extractTextFromDocument env filePath (tick (FindUnique dataSourceId) w)
                  = (Inr extractedText, w2)
              \<and> insertEmbeddings env (number_chunks (splitter env extractedText)) userId
                   \<lparr>im_subjectId = subject_of dataSource, im_dataSourceId = dataSourceId\<rparr> w2
                  = (Inr (), w3)
              \<and> update_r env (clock w3)
                   \<lparr>dw_id = dataSourceId, dw_content = extractedText, dw_status = COMPLETED\<rparr> = Inl e
              \<and> wt = tick (Update \<lparr>dw_id = dataSourceId, dw_content = extractedText,
                                     dw_status = COMPLETED\<rparr>) w3))
        \<longrightarrow>
          last (log (snd (processFileAsync env filePath dataSourceId userId w)))
            = Update \<lparr>dw_id = dataSourceId, dw_content = ''Error processing: '' @ e,
                       dw_status = ERROR\<rparr>
          \<and> (case update_r env (clock wt)
                    \<lparr>dw_id = dataSourceId, dw_content = ''Error processing: '' @ e,
                      dw_status = ERROR\<rparr> of
               Inr u \<Rightarrow>
                 fst (processFileAsync env filePath dataSourceId userId w) = Inl e
                 \<and> db_writes (snd (processFileAsync env filePath dataSourceId userId w))
                     = db_writes w @
                         [\<lparr>dw_id = dataSourceId, dw_content = ''Error processing: '' @ e,
                           dw_status = ERROR\<rparr>]
             | Inl e2 \<Rightarrow>
                 fst (processFileAsync env filePath dataSourceId userId w) = Inl e2
                 \<and> db_writes (snd (processFileAsync env filePath dataSourceId userId w))
                     = db_writes w))
   \<and> (\<forall>dataSource extractedText w2 w3.
        findUnique_r env (clock w) dataSourceId = Inr dataSource
        \<and> extractTextFromDocument env filePath (tick (FindUnique dataSourceId) w)
            = (Inr extractedText, w2)
        \<and> insertEmbeddings env (number_chunks (splitter env extractedText)) userId
             \<lparr>im_subjectId = subject_of dataSource, im_dataSourceId = dataSourceId\<rparr> w2
            = (Inr (), w3)
        \<and> update_r env (clock w3)
             \<lparr>dw_id = dataSourceId, dw_content = extractedText, dw_status = COMPLETED\<rparr> = Inr ()
        \<longrightarrow>
          fst (processFileAsync env filePath dataSourceId userId w) = Inr ()
          \<and> db_writes (snd (processFileAsync env filePath dataSourceId userId w))
              = db_writes w @
                  [\<lparr>dw_id = dataSourceId, dw_content = extractedText, dw_status = COMPLETED\<rparr>]
          \<and> last (log (snd (processFileAsync env filePath dataSourceId userId w)))
              = Update \<lparr>dw_id = dataSourceId, dw_content = extractedText, dw_status = COMPLETED\<rparr>)
   \<and> count_list (log (snd (processFileAsync env filePath dataSourceId userId w)))
        (ReadFile filePath) \<le> Suc (count_list (log w) (ReadFile filePath))
   \<and> ((\<exists>dataSource extractedText.
          findUnique_r env (clock w) dataSourceId = Inr dataSource
        \<and> fst (extractTextFromDocument env filePath (tick (FindUnique dataSourceId) w))
            = Inr extractedText)
        \<and> (\<forall>n d. update_r env n d = Inr ())
       \<longrightarrow> fst (processFileAsync env filePath dataSourceId userId w) = Inr ())"
  (is "?A \<and> ?B \<and> ?C \<and> ?D \<and> ?E")
proof (intro conjI)
  obtain r w' where steps: "ingest_steps env filePath dataSourceId userId w = (r, w')"
    by (cases "ingest_steps env filePath dataSourceId userId w")
  show ?A
  proof (cases r)
    case (Inl e)
    obtain r2 w2 where failed: "ingest_failed env dataSourceId e w' = (r2, w2)"
      by (cases "ingest_failed env dataSourceId e w'")
    from ingest_steps_outcome[OF steps] Inl have "db_writes w' = db_writes w"
      by auto
    with ingest_failed_outcome[OF failed] steps Inl failed show ?thesis
      by (auto simp: processFileAsync_split io_catch_def)
  next
    case (Inr u)
    with steps have "processFileAsync env filePath dataSourceId userId w = (Inr u, w')"
      by (simp add: processFileAsync_split io_catch_def)
    with ingest_steps_outcome[OF steps] Inr show ?thesis
      by auto
  qed
  show ?B
  proof (intro allI impI)
    fix e wt
    assume failure: "findUnique_r env (clock w) dataSourceId = Inl e \<and> wt = tick (FindUnique dataSourceId) w
         \<or> (\<exists>dataSource. findUnique_r env (clock w) dataSourceId = Inr dataSource
              \<and> extractTextFromDocument env filePath (tick (FindUnique dataSourceId) w) = (Inl e, wt))
         \<or> (\<exists>dataSource extractedText w2 w3.
              findUnique_r env (clock w) dataSourceId = Inr dataSource
              \<and> extractTextFromDocument env filePath (tick (FindUnique dataSourceId) w)
                  = (Inr extractedText, w2)
              \<and> insertEmbeddings env (number_chunks (splitter env extractedText)) userId
                   \<lparr>im_subjectId = subject_of dataSource, im_dataSourceId = dataSourceId\<rparr> w2
                  = (Inr (), w3)
              \<and> update_r env (clock w3)
                   \<lparr>dw_id = dataSourceId, dw_content = extractedText, dw_status = COMPLETED\<rparr> = Inl e
              \<and> wt = tick (Update \<lparr>dw_id = dataSourceId, dw_content = extractedText,
                                     dw_status = COMPLETED\<rparr>) w3)"
    then have thrown: "ingest_steps env filePath dataSourceId userId w = (Inl e, wt)"
      by (rule ingest_steps_throws)
    from ingest_steps_outcome[OF thrown] have "db_writes wt = db_writes w"
      by auto
    with thrown show "last (log (snd (processFileAsync env filePath dataSourceId userId w)))
            = Update \<lparr>dw_id = dataSourceId, dw_content = ''Error processing: '' @ e,
                       dw_status = ERROR\<rparr>
          \<and> (case update_r env (clock wt)
                    \<lparr>dw_id = dataSourceId, dw_content = ''Error processing: '' @ e,
                      dw_status = ERROR\<rparr> of
               Inr u \<Rightarrow>
                 fst (processFileAsync env filePath dataSourceId userId w) = Inl e
                 \<and> db_writes (snd (processFileAsync env filePath dataSourceId userId w))
                     = db_writes w @
                         [\<lparr>dw_id = dataSourceId, dw_content = ''Error processing: '' @ e,
                           dw_status = ERROR\<rparr>]
             | Inl e2 \<Rightarrow>
                 fst (processFileAsync env filePath dataSourceId userId w) = Inl e2
                 \<and> db_writes (snd (processFileAsync env filePath dataSourceId userId w))
                     = db_writes w)"
      by (rule processFileAsync_caught)
  qed
  show ?C
  proof (intro allI impI, elim conjE)
    fix dataSource extractedText w2 w3
    assume a: "findUnique_r env (clock w) dataSourceId = Inr dataSource"
      "extractTextFromDocument env filePath (tick (FindUnique dataSourceId) w)
            = (Inr extractedText, w2)"
      "insertEmbeddings env (number_chunks (splitter env extractedText)) userId
             \<lparr>im_subjectId = subject_of dataSource, im_dataSourceId = dataSourceId\<rparr> w2
            = (Inr (), w3)"
      "update_r env (clock w3)
             \<lparr>dw_id = dataSourceId, dw_content = extractedText, dw_status = COMPLETED\<rparr> = Inr ()"
    note run = ingest_steps_completes[OF a, of]
    from ingest_steps_outcome[OF run] a(2)
    have "db_writes w3 = db_writes w"
      by (auto simp: tick_def)
    with run show "fst (processFileAsync env filePath dataSourceId userId w) = Inr ()
          \<and> db_writes (snd (processFileAsync env filePath dataSourceId userId w))
              = db_writes w @
                  [\<lparr>dw_id = dataSourceId, dw_content = extractedText, dw_status = COMPLETED\<rparr>]
          \<and> last (log (snd (processFileAsync env filePath dataSourceId userId w)))
              = Update \<lparr>dw_id = dataSourceId, dw_content = extractedText, dw_status = COMPLETED\<rparr>"
      by (simp add: processFileAsync_split io_catch_def tick_def)
  qed
  show ?D
    by (rule processFileAsync_reads_once)
  show ?E
  proof (intro impI)
    assume ok: "(\<exists>dataSource extractedText.
          findUnique_r env (clock w) dataSourceId = Inr dataSource
        \<and> fst (extractTextFromDocument env filePath (tick (FindUnique dataSourceId) w))
            = Inr extractedText)
        \<and> (\<forall>n d. update_r env n d = Inr ())"
    from ok obtain dataSource extractedText where
      lookup: "findUnique_r env (clock w) dataSourceId = Inr dataSource"
      and ex: "fst (extractTextFromDocument env filePath (tick (FindUnique dataSourceId) w))
            = Inr extractedText"
      and upd: "\<And>n d. update_r env n d = Inr ()"
      by blast
    obtain w2 where ex2: "extractTextFromDocument env filePath (tick (FindUnique dataSourceId) w)
        = (Inr extractedText, w2)"
      using ex by (cases "extractTextFromDocument env filePath (tick (FindUnique dataSourceId) w)") simp
    let ?meta = "\<lparr>im_subjectId = subject_of dataSource, im_dataSourceId = dataSourceId\<rparr>"
    let ?docs = "number_chunks (splitter env extractedText)"
    obtain w3 where ins_run: "insertEmbeddings env ?docs userId ?meta w2 = (Inr (), w3)"
      using insertEmbeddings_returns[of env ?docs userId ?meta w2]
      by (cases "insertEmbeddings env ?docs userId ?meta w2") simp
    from lookup ex2 ins_run upd
    have "fst (ingest_steps env filePath dataSourceId userId w) = Inr ()"
      by (simp add: ingest_steps_def db_findUnique_def io_bind_def request_def db_update_def)
    then show "fst (processFileAsync env filePath dataSourceId userId w) = Inr ()"
      by (cases "ingest_steps env filePath dataSourceId userId w")
        (simp add: processFileAsync_split io_catch_def)
  qed
qed


theorem processFileAsync_single_transition_witness:
  "fst (processFileAsync failing_completed_env upload_path source_uuid tenant_uuid world0)
     = Inl ''database unavailable''
   \<and> db_writes (snd (processFileAsync failing_completed_env upload_path source_uuid tenant_uuid
          world0))
     = [\<lparr>dw_id = source_uuid, dw_content = ''Error processing: database unavailable'',
         dw_status = ERROR\<rparr>]
   \<and> fst (processFileAsync failing_update_env upload_path source_uuid tenant_uuid world0)
     = Inl ''database unavailable''
   \<and> db_writes (snd (processFileAsync failing_update_env upload_path source_uuid tenant_uuid
          world0)) = []
   \<and> fst (processFileAsync no_model_env upload_path source_uuid tenant_uuid world0)
     = Inl ''[GeminiService] Failed to extract text from document: Gemini model not initialized''
   \<and> db_writes (snd (processFileAsync no_model_env upload_path source_uuid tenant_uuid world0))
     = [\<lparr>dw_id = source_uuid,
         dw_content = ''Error processing: [GeminiService] Failed to extract text from document: Gemini model not initialized'',
         dw_status = ERROR\<rparr>]
   \<and> fst (processFileAsync (example_env\<lparr>findUnique_r := \<lambda>n i. Inl ''database unavailable''\<rparr>)
          upload_path source_uuid tenant_uuid world0) = Inl ''database unavailable''
   \<and> fst (processFileAsync failing_insert_env upload_path source_uuid tenant_uuid world0) = Inr ()
   \<and> db_writes (snd (processFileAsync failing_insert_env upload_path source_uuid tenant_uuid
          world0))
     = [\<lparr>dw_id = source_uuid, dw_content = ''Paragraph one.'', dw_status = COMPLETED\<rparr>]"
  (is "?A1 \<and> ?A2 \<and> ?B1 \<and> ?B2 \<and> ?C1 \<and> ?C2 \<and> ?D1 \<and> ?E1 \<and> ?E2")
proof -
  let ?w1 = "tick (FindUnique source_uuid) world0"
  let ?meta = "\<lparr>im_subjectId = subject_of (Some None), im_dataSourceId = source_uuid\<rparr>"
  let ?docs = "number_chunks (splitter example_env ''Paragraph one.'')"
  let ?completed = "\<lparr>dw_id = source_uuid, dw_content = ''Paragraph one.'', dw_status = COMPLETED\<rparr>"
  have extracted: "fst (extractTextFromDocument env upload_path ?w1) = Inr ''Paragraph one.''"
    if "extract_model env" "readFile_r env = readFile_r example_env"
      "extract_generate_r env = extract_generate_r example_env" for env
    using that by (simp add: extractTextFromDocument_def io_defs example_env_def)
  txt \<open>the \<open>COMPLETED\<close> update throws, the \<open>ERROR\<close> update succeeds\<close>
  have "fst (extractTextFromDocument failing_completed_env upload_path ?w1) = Inr ''Paragraph one.''"
    by (rule extracted) (simp_all add: failing_completed_env_def example_env_def)
  then obtain a2 where a_ex: "extractTextFromDocument failing_completed_env upload_path ?w1
      = (Inr ''Paragraph one.'', a2)"
    by (cases "extractTextFromDocument failing_completed_env upload_path ?w1") simp
  obtain a3 where a_ins: "insertEmbeddings failing_completed_env
      (number_chunks (splitter failing_completed_env ''Paragraph one.'')) tenant_uuid ?meta a2
      = (Inr (), a3)"
    using insertEmbeddings_returns[of failing_completed_env
        "number_chunks (splitter failing_completed_env ''Paragraph one.'')" tenant_uuid ?meta a2]
    by (cases "insertEmbeddings failing_completed_env
        (number_chunks (splitter failing_completed_env ''Paragraph one.'')) tenant_uuid ?meta a2") simp
  have a_lookup: "findUnique_r failing_completed_env (clock world0) source_uuid = Inr (Some None)"
    and a_update: "update_r failing_completed_env (clock a3) ?completed = Inl ''database unavailable''"
    and a_error: "update_r failing_completed_env (clock (tick (Update ?completed) a3))
        \<lparr>dw_id = source_uuid, dw_content = ''Error processing: '' @ ''database unavailable'',
          dw_status = ERROR\<rparr> = Inr ()"
    by (simp_all add: failing_completed_env_def example_env_def)
  from processFileAsync_single_transition
      [where env = failing_completed_env and filePath = upload_path
         and dataSourceId = source_uuid and userId = tenant_uuid and w = world0]
  have "(case update_r failing_completed_env (clock (tick (Update ?completed) a3))
                    \<lparr>dw_id = source_uuid, dw_content = ''Error processing: '' @ ''database unavailable'',
                      dw_status = ERROR\<rparr> of
               Inr u \<Rightarrow>
                 fst (processFileAsync failing_completed_env upload_path source_uuid tenant_uuid world0)
                   = Inl ''database unavailable''
                 \<and> db_writes (snd (processFileAsync failing_completed_env upload_path source_uuid
                        tenant_uuid world0))
                     = db_writes world0 @
                         [\<lparr>dw_id = source_uuid,
                           dw_content = ''Error processing: '' @ ''database unavailable'',
                           dw_status = ERROR\<rparr>]
             | Inl e2 \<Rightarrow>
                 fst (processFileAsync failing_completed_env upload_path source_uuid tenant_uuid world0)
                   = Inl e2
                 \<and> db_writes (snd (processFileAsync failing_completed_env upload_path source_uuid
                        tenant_uuid world0))
                     = db_writes world0)"
    using a_lookup a_ex a_ins a_update by blast
  with a_error have A: "?A1 \<and> ?A2"
    by (simp add: world0_def)
  txt \<open>every update throws\<close>
  have "fst (extractTextFromDocument failing_update_env upload_path ?w1) = Inr ''Paragraph one.''"
    by (rule extracted) (simp_all add: failing_update_env_def example_env_def)
  then obtain b2 where b_ex: "extractTextFromDocument failing_update_env upload_path ?w1
      = (Inr ''Paragraph one.'', b2)"
    by (cases "extractTextFromDocument failing_update_env upload_path ?w1") simp
  obtain b3 where b_ins: "insertEmbeddings failing_update_env
      (number_chunks (splitter failing_update_env ''Paragraph one.'')) tenant_uuid ?meta b2
      = (Inr (), b3)"
    using insertEmbeddings_returns[of failing_update_env
        "number_chunks (splitter failing_update_env ''Paragraph one.'')" tenant_uuid ?meta b2]
    by (cases "insertEmbeddings failing_update_env
        (number_chunks (splitter failing_update_env ''Paragraph one.'')) tenant_uuid ?meta b2") simp
  have b_lookup: "findUnique_r failing_update_env (clock world0) source_uuid = Inr (Some None)"
    and b_update: "update_r failing_update_env (clock b3) ?completed = Inl ''database unavailable''"
    and b_error: "update_r failing_update_env (clock (tick (Update ?completed) b3))
        \<lparr>dw_id = source_uuid, dw_content = ''Error processing: '' @ ''database unavailable'',
          dw_status = ERROR\<rparr> = Inl ''database unavailable''"
    by (simp_all add: failing_update_env_def example_env_def)
  from processFileAsync_single_transition
      [where env = failing_update_env and filePath = upload_path
         and dataSourceId = source_uuid and userId = tenant_uuid and w = world0]
  have "(case update_r failing_update_env (clock (tick (Update ?completed) b3))
                    \<lparr>dw_id = source_uuid, dw_content = ''Error processing: '' @ ''database unavailable'',
                      dw_status = ERROR\<rparr> of
               Inr u \<Rightarrow>
                 fst (processFileAsync failing_update_env upload_path source_uuid tenant_uuid world0)
                   = Inl ''database unavailable''
                 \<and> db_writes (snd (processFileAsync failing_update_env upload_path source_uuid
                        tenant_uuid world0))
                     = db_writes world0 @
                         [\<lparr>dw_id = source_uuid,
                           dw_content = ''Error processing: '' @ ''database unavailable'',
                           dw_status = ERROR\<rparr>]
             | Inl e2 \<Rightarrow>
                 fst (processFileAsync failing_update_env upload_path source_uuid tenant_uuid world0)
                   = Inl e2
                 \<and> db_writes (snd (processFileAsync failing_update_env upload_path source_uuid
                        tenant_uuid world0))
                     = db_writes world0)"
    using b_lookup b_ex b_ins b_update by blast
  with b_error have B: "?B1 \<and> ?B2"
    by (simp add: world0_def)
  txt \<open>the extraction throws\<close>
  let ?reason = "''[GeminiService] Failed to extract text from document: Gemini model not initialized''"
  have c_lookup: "findUnique_r no_model_env (clock world0) source_uuid = Inr (Some None)"
    and c_ex: "extractTextFromDocument no_model_env upload_path ?w1 = (Inl ?reason, ?w1)"
    and c_error: "update_r no_model_env (clock ?w1)
        \<lparr>dw_id = source_uuid, dw_content = ''Error processing: '' @ ?reason, dw_status = ERROR\<rparr>
        = Inr ()"
    by (simp_all add: no_model_env_def example_env_def extractTextFromDocument_def io_defs)
  from processFileAsync_single_transition
      [where env = no_model_env and filePath = upload_path
         and dataSourceId = source_uuid and userId = tenant_uuid and w = world0]
  have "(case update_r no_model_env (clock ?w1)
                    \<lparr>dw_id = source_uuid, dw_content = ''Error processing: '' @ ?reason,
                      dw_status = ERROR\<rparr> of
               Inr u \<Rightarrow>
                 fst (processFileAsync no_model_env upload_path source_uuid tenant_uuid world0)
                   = Inl ?reason
                 \<and> db_writes (snd (processFileAsync no_model_env upload_path source_uuid
                        tenant_uuid world0))
                     = db_writes world0 @
                         [\<lparr>dw_id = source_uuid, dw_content = ''Error processing: '' @ ?reason,
                           dw_status = ERROR\<rparr>]
             | Inl e2 \<Rightarrow>
                 fst (processFileAsync no_model_env upload_path source_uuid tenant_uuid world0)
                   = Inl e2
                 \<and> db_writes (snd (processFileAsync no_model_env upload_path source_uuid
                        tenant_uuid world0))
                     = db_writes world0)"
    using c_lookup c_ex by blast
  with c_error have C: "?C1 \<and> ?C2"
    by (simp add: world0_def)
  txt \<open>the lookup throws\<close>
  let ?down = "example_env\<lparr>findUnique_r := \<lambda>n i. Inl ''database unavailable''\<rparr>"
  have d_lookup: "findUnique_r ?down (clock world0) source_uuid = Inl ''database unavailable''"
    and d_error: "update_r ?down (clock ?w1)
        \<lparr>dw_id = source_uuid, dw_content = ''Error processing: '' @ ''database unavailable'',
          dw_status = ERROR\<rparr> = Inr ()"
    by (simp_all add: example_env_def)
  from processFileAsync_single_transition
      [where env = ?down and filePath = upload_path
         and dataSourceId = source_uuid and userId = tenant_uuid and w = world0]
  have "(case update_r ?down (clock ?w1)
                    \<lparr>dw_id = source_uuid, dw_content = ''Error processing: '' @ ''database unavailable'',
                      dw_status = ERROR\<rparr> of
               Inr u \<Rightarrow>
                 fst (processFileAsync ?down upload_path source_uuid tenant_uuid world0)
                   = Inl ''database unavailable''
                 \<and> db_writes (snd (processFileAsync ?down upload_path source_uuid
                        tenant_uuid world0))
                     = db_writes world0 @
                         [\<lparr>dw_id = source_uuid,
                           dw_content = ''Error processing: '' @ ''database unavailable'',
                           dw_status = ERROR\<rparr>]
             | Inl e2 \<Rightarrow>
                 fst (processFileAsync ?down upload_path source_uuid tenant_uuid world0)
                   = Inl e2
                 \<and> db_writes (snd (processFileAsync ?down upload_path source_uuid
                        tenant_uuid world0))
                     = db_writes world0)"
    using d_lookup by blast
  with d_error have D: ?D1
    by simp
  txt \<open>the insert throws, the updates succeed\<close>
  have "fst (extractTextFromDocument failing_insert_env upload_path ?w1) = Inr ''Paragraph one.''"
    by (rule extracted) (simp_all add: failing_insert_env_def example_env_def)
  then obtain e2 where e_ex: "extractTextFromDocument failing_insert_env upload_path ?w1
      = (Inr ''Paragraph one.'', e2)"
    by (cases "extractTextFromDocument failing_insert_env upload_path ?w1") simp
  obtain e3 where e_ins: "insertEmbeddings failing_insert_env
      (number_chunks (splitter failing_insert_env ''Paragraph one.'')) tenant_uuid ?meta e2
      = (Inr (), e3)"
    using insertEmbeddings_returns[of failing_insert_env
        "number_chunks (splitter failing_insert_env ''Paragraph one.'')" tenant_uuid ?meta e2]
    by (cases "insertEmbeddings failing_insert_env
        (number_chunks (splitter failing_insert_env ''Paragraph one.'')) tenant_uuid ?meta e2") simp
  have e_lookup: "findUnique_r failing_insert_env (clock world0) source_uuid = Inr (Some None)"
    and e_update: "update_r failing_insert_env (clock e3) ?completed = Inr ()"
    by (simp_all add: failing_insert_env_def example_env_def)
  from processFileAsync_single_transition
      [where env = failing_insert_env and filePath = upload_path
         and dataSourceId = source_uuid and userId = tenant_uuid and w = world0]
  have "fst (processFileAsync failing_insert_env upload_path source_uuid tenant_uuid world0) = Inr ()
      \<and> db_writes (snd (processFileAsync failing_insert_env upload_path source_uuid tenant_uuid
            world0)) = db_writes world0 @ [?completed]"
    using e_lookup e_ex e_ins e_update by blast
  then have E: "?E1 \<and> ?E2"
    by (simp add: world0_def)
  have "\<forall>n d. update_r failing_insert_env n d = Inr ()"
    by (simp add: failing_insert_env_def example_env_def)
  with processFileAsync_single_transition
      [where env = failing_insert_env and filePath = upload_path
         and dataSourceId = source_uuid and userId = tenant_uuid and w = world0]
    e_lookup e_ex
  have "fst (processFileAsync failing_insert_env upload_path source_uuid tenant_uuid world0) = Inr ()"
    by (simp del: split_paired_All)
  from A B C D E show ?thesis
    by blast
qed

lemmas ingest_defs = processFileAsync_def extractTextFromDocument_def insertEmbeddings_def
  number_chunks_def subject_of_def make_entity_def status_after_def upload_path_def


text \<open>
  Claim C7 as stated fails: the insert of the only chunk throws, and the run still writes
  the extracted text with status \<open>COMPLETED\<close>, not the failure reason with \<open>ERROR\<close>.
\<close>

theorem processFileAsync_insert_failure_counterexample:
  "insert_r failing_insert_env 4
       \<lparr>e_text = ''Paragraph one.'', e_embedding = [14], e_chunk_id = 0,
         e_meta_subjectId = None, e_meta_dataSourceId = source_uuid,
         user_id = tenant_uuid, subject_id = [], data_source_id = source_uuid\<rparr>
     = Inl ''collection not loaded''
   \<and> fst (processFileAsync failing_insert_env upload_path source_uuid tenant_uuid world0) = Inr ()
   \<and> db_writes (snd (processFileAsync failing_insert_env upload_path source_uuid tenant_uuid world0))
       = [\<lparr>dw_id = source_uuid, dw_content = ''Paragraph one.'', dw_status = COMPLETED\<rparr>]
   \<and> chunks (snd (processFileAsync failing_insert_env upload_path source_uuid tenant_uuid world0)) = []
   \<and> log (snd (processFileAsync failing_insert_env upload_path source_uuid tenant_uuid world0))
       = [FindUnique source_uuid, ReadFile upload_path, ExtractGenerate ''bytes'',
          Predict [''Paragraph one.''],
          Insert \<lparr>e_text = ''Paragraph one.'', e_embedding = [14], e_chunk_id = 0,
                  e_meta_subjectId = None, e_meta_dataSourceId = source_uuid,
                  user_id = tenant_uuid, subject_id = [], data_source_id = source_uuid\<rparr>,
          Update \<lparr>dw_id = source_uuid, dw_content = ''Paragraph one.'',
                  dw_status = COMPLETED\<rparr>]"
  by (simp add: failing_insert_env_def ingest_defs io_defs prim_defs getEmbeddings_def
      example_defs uuid_defs)

text \<open>
  Claim C8 as stated fails: the model returns an empty text, the splitter yields no chunk,
  and the run ends with status \<open>COMPLETED\<close> and empty content.
\<close>

theorem processFileAsync_empty_text_counterexample:
  "fst (extractTextFromDocument empty_text_env upload_path (tick (FindUnique source_uuid) world0))
     = Inr []
   \<and> splitter empty_text_env [] = []
   \<and> fst (processFileAsync empty_text_env upload_path source_uuid tenant_uuid world0) = Inr ()
   \<and> db_writes (snd (processFileAsync empty_text_env upload_path source_uuid tenant_uuid world0))
       = [\<lparr>dw_id = source_uuid, dw_content = [], dw_status = COMPLETED\<rparr>]
   \<and> status_after
         (db_writes (snd (processFileAsync empty_text_env upload_path source_uuid tenant_uuid world0)))
         source_uuid = COMPLETED
   \<and> log (snd (processFileAsync empty_text_env upload_path source_uuid tenant_uuid world0))
       = [FindUnique source_uuid, ReadFile upload_path, ExtractGenerate ''bytes'',
          Update \<lparr>dw_id = source_uuid, dw_content = [], dw_status = COMPLETED\<rparr>]"
  by (simp add: empty_text_env_def ingest_defs io_defs prim_defs getEmbeddings_def
      example_defs uuid_defs)

text \<open>
  Claim C8, as the code has it. When the first candidate of the model has no content or an
  empty first part, \<^verbatim>\<open>extractTextFromDocument\<close> returns the empty string. With a splitter
  that yields no chunk for the empty string, and a lookup and a status update that succeed,
  the run sends no embedding and no insert request and writes the empty content with status
  \<open>COMPLETED\<close>.
\<close>

theorem processFileAsync_empty_text_completes:
  assumes lookup: "findUnique_r env (clock w) dataSourceId = Inr dataSource"
    and model: "extract_model env"
    and content: "readFile_r env (Suc (clock w)) filePath = Inr fileContent"
    and response: "extract_generate_r env (Suc (Suc (clock w))) fileContent
        = Inr (Some (candidate # candidates))"
    and empty: "candidate = None \<or> (\<exists>parts. candidate = Some ([] # parts))"
    and no_chunks: "splitter env [] = []"
    and update: "update_r env (Suc (Suc (Suc (clock w))))
        \<lparr>dw_id = dataSourceId, dw_content = [], dw_status = COMPLETED\<rparr> = Inr ()"
  shows "fst (extractTextFromDocument env filePath (tick (FindUnique dataSourceId) w)) = Inr []
    \<and> processFileAsync env filePath dataSourceId userId w =
       (Inr (),
        w\<lparr>clock := clock w + 4,
          log := log w @ [FindUnique dataSourceId, ReadFile filePath, ExtractGenerate fileContent,
                   Update \<lparr>dw_id = dataSourceId, dw_content = [], dw_status = COMPLETED\<rparr>],
          db_writes := db_writes w @
                   [\<lparr>dw_id = dataSourceId, dw_content = [], dw_status = COMPLETED\<rparr>]\<rparr>)"
  using assms
  by (auto simp: processFileAsync_def extractTextFromDocument_def insertEmbeddings_def
      number_chunks_def io_defs prim_defs)

theorem processFileAsync_empty_text_completes_witness:
  "fst (extractTextFromDocument empty_text_env upload_path (tick (FindUnique source_uuid) world0))
     = Inr []
   \<and> processFileAsync empty_text_env upload_path source_uuid tenant_uuid world0 =
       (Inr (),
        world0\<lparr>clock := clock world0 + 4,
          log := log world0 @ [FindUnique source_uuid, ReadFile upload_path, ExtractGenerate ''bytes'',
                   Update \<lparr>dw_id = source_uuid, dw_content = [], dw_status = COMPLETED\<rparr>],
          db_writes := db_writes world0 @
                   [\<lparr>dw_id = source_uuid, dw_content = [], dw_status = COMPLETED\<rparr>]\<rparr>)"
proof -
  have lookup: "findUnique_r empty_text_env (clock world0) source_uuid = Inr (Some None)"
    by (simp add: empty_text_env_def example_env_def)
  have model: "extract_model empty_text_env"
    by (simp add: empty_text_env_def example_env_def)
  have content: "readFile_r empty_text_env (Suc (clock world0)) upload_path = Inr ''bytes''"
    by (simp add: empty_text_env_def example_env_def)
  have response: "extract_generate_r empty_text_env (Suc (Suc (clock world0))) ''bytes''
      = Inr (Some (Some [[]] # []))"
    by (simp add: empty_text_env_def)
  have empty: "Some [[]] = None \<or> (\<exists>parts. Some [[]] = Some ([] # parts :: string list))"
    by simp
  have no_chunks: "splitter empty_text_env [] = []"
    by (simp add: empty_text_env_def example_env_def)
  have update: "update_r empty_text_env (Suc (Suc (Suc (clock world0))))
      \<lparr>dw_id = source_uuid, dw_content = [], dw_status = COMPLETED\<rparr> = Inr ()"
    by (simp add: empty_text_env_def example_env_def)
  show ?thesis
    by (rule processFileAsync_empty_text_completes
        [OF lookup model content response empty no_chunks update])
qed


section \<open>The vector stored for a chunk\<close>

lemma insert_loop_vectors:
  assumes per_instance: "\<forall>n instances. predict_r env n instances = Inr (map model instances)"
    and inserts: "\<forall>n e. insert_r env n e = Inr ()"
  shows "fst (insert_loop env documents userId metadata w) = Inr ()
     \<and> chunks (snd (insert_loop env documents userId metadata w))
       = chunks w @ map (\<lambda>d. make_entity d (model (takeWhile (\<lambda>c. c \<noteq> CHR '';'') (pageContent d)))
                              userId metadata) documents"
proof (induction documents arbitrary: w)
  case Nil
  show ?case by (simp add: io_return_def)
next
  case (Cons d documents)
  let ?v = "model (takeWhile (\<lambda>c. c \<noteq> CHR '';'') (pageContent d))"
  let ?w1 = "tick (Predict (split_on CHR '';'' (pageContent d))) w"
  let ?e = "make_entity d ?v userId metadata"
  let ?w2 = "(tick (Insert ?e) ?w1)\<lparr>chunks := chunks ?w1 @ [?e]\<rparr>"
  from per_instance have "getEmbeddings env (pageContent d) w = (Inr (Some ?v), ?w1)"
    by (intro getEmbeddings_model) simp
  with inserts have step: "insert_loop env (d # documents) userId metadata w
      = insert_loop env documents userId metadata ?w2"
    by (simp add: io_bind_def client_insert_def)
  have "chunks ?w2 = chunks w @ [?e]"
    by (simp add: tick_def)
  with Cons.IH[of ?w2] step show ?case by simp
qed

lemma insertEmbeddings_vectors:
  assumes "\<forall>n instances. predict_r env n instances = Inr (map model instances)"
    and "\<forall>n e. insert_r env n e = Inr ()"
  shows "chunks (snd (insertEmbeddings env documents userId metadata w))
       = chunks w @ map (\<lambda>d. make_entity d (model (takeWhile (\<lambda>c. c \<noteq> CHR '';'') (pageContent d)))
                              userId metadata) documents"
  using insert_loop_vectors[OF assms, of documents userId metadata w]
  by (cases "insert_loop env documents userId metadata w") (simp add: insertEmbeddings_def io_catch_def)

text \<open>Whatever the inserts answer, a stored row holds the vector of the first segment of its text.\<close>

lemma insert_loop_row_vectors:
  assumes per_instance: "\<forall>n instances. predict_r env n instances = Inr (map model instances)"
  shows "\<exists>ins. chunks (snd (insert_loop env documents userId metadata w)) = chunks w @ ins
     \<and> list_all (\<lambda>e. e_embedding e = model (takeWhile (\<lambda>c. c \<noteq> CHR '';'') (e_text e))) ins"
proof (induction documents arbitrary: w)
  case Nil
  show ?case by (simp add: io_return_def)
next
  case (Cons d documents)
  let ?v = "model (takeWhile (\<lambda>c. c \<noteq> CHR '';'') (pageContent d))"
  let ?w1 = "tick (Predict (split_on CHR '';'' (pageContent d))) w"
  let ?e = "make_entity d ?v userId metadata"
  from per_instance have g: "getEmbeddings env (pageContent d) w = (Inr (Some ?v), ?w1)"
    by (intro getEmbeddings_model) simp
  obtain r2 w2 where i: "client_insert env ?e ?w1 = (r2, w2)"
    by (cases "client_insert env ?e ?w1")
  note c = client_insert_cases[OF i]
  have w1: "chunks ?w1 = chunks w" by (simp add: tick_def)
  show ?case
  proof (cases r2)
    case (Inl err)
    with g i c w1 show ?thesis by (simp add: io_bind_def)
  next
    case (Inr u)
    from Cons.IH[of w2] obtain ins where
      ins: "chunks (snd (insert_loop env documents userId metadata w2)) = chunks w2 @ ins"
        "list_all (\<lambda>e. e_embedding e = model (takeWhile (\<lambda>c. c \<noteq> CHR '';'') (e_text e))) ins"
      by blast
    have "e_embedding ?e = model (takeWhile (\<lambda>c. c \<noteq> CHR '';'') (e_text ?e))"
      by (simp add: make_entity_def)
    with g i c Inr w1 ins show ?thesis
      by (intro exI[of _ "?e # ins"]) (simp add: io_bind_def)
  qed
qed

lemma insertEmbeddings_row_vectors:
  assumes "\<forall>n instances. predict_r env n instances = Inr (map model instances)"
  shows "\<exists>ins. chunks (snd (insertEmbeddings env documents userId metadata w)) = chunks w @ ins
     \<and> list_all (\<lambda>e. e_embedding e = model (takeWhile (\<lambda>c. c \<noteq> CHR '';'') (e_text e))) ins"
  unfolding insertEmbeddings_def snd_catch_return by (rule insert_loop_row_vectors[OF assms])

text \<open>
  Claim C10. \<^verbatim>\<open>getEmbeddings\<close> sends the \<^verbatim>\<open>;\<close>-separated segments of its input as the
  instances of one prediction request and returns the first prediction only. When the
  service answers one prediction per instance, in order, the vector returned is that of the
  text before the first semicolon, which is strictly shorter than the input when the input
  contains a semicolon. Every row that \<^verbatim>\<open>insertEmbeddings\<close> stores for a list of chunks then
  holds the whole chunk text with the vector of the first segment of that text; when every
  insert succeeds the rows stored are, in order, one such row for each chunk of the list.
  Every search request of \<^verbatim>\<open>searchMilvus\<close> carries the vector of the first segment of the
  question.
\<close>

theorem getEmbeddings_first_segment_only:
  assumes "\<forall>n instances. predict_r env n instances = Inr (map model instances)"
  shows "getEmbeddings env texts w =
       (Inr (Some (model (takeWhile (\<lambda>c. c \<noteq> CHR '';'') texts))),
        tick (Predict (split_on CHR '';'' texts)) w)
     \<and> (\<exists>ins. chunks (snd (insertEmbeddings env documents userId metadata w)) = chunks w @ ins
          \<and> list_all (\<lambda>e. e_embedding e = model (takeWhile (\<lambda>c. c \<noteq> CHR '';'') (e_text e))) ins)
     \<and> ((\<forall>n e. insert_r env n e = Inr ()) \<longrightarrow>
          chunks (snd (insertEmbeddings env documents userId metadata w))
            = chunks w @
                map (\<lambda>d. make_entity d (model (takeWhile (\<lambda>c. c \<noteq> CHR '';'') (pageContent d)))
                            userId metadata) documents)
     \<and> (\<forall>r. Search r \<in> set (log (snd (searchMilvus env texts userId options w)))
            \<and> Search r \<notin> set (log w)
          \<longrightarrow> sr_vector r = model (takeWhile (\<lambda>c. c \<noteq> CHR '';'') texts))
     \<and> (CHR '';'' \<in> set texts \<longrightarrow>
          length (takeWhile (\<lambda>c. c \<noteq> CHR '';'') texts) < length texts)"
proof (intro conjI impI allI)
  show "getEmbeddings env texts w =
       (Inr (Some (model (takeWhile (\<lambda>c. c \<noteq> CHR '';'') texts))),
        tick (Predict (split_on CHR '';'' texts)) w)"
    by (rule getEmbeddings_model) (simp add: assms)
  show "\<exists>ins. chunks (snd (insertEmbeddings env documents userId metadata w)) = chunks w @ ins
          \<and> list_all (\<lambda>e. e_embedding e = model (takeWhile (\<lambda>c. c \<noteq> CHR '';'') (e_text e))) ins"
    by (rule insertEmbeddings_row_vectors[OF assms])
  show "chunks (snd (insertEmbeddings env documents userId metadata w))
            = chunks w @
                map (\<lambda>d. make_entity d (model (takeWhile (\<lambda>c. c \<noteq> CHR '';'') (pageContent d)))
                            userId metadata) documents"
    if "\<forall>n e. insert_r env n e = Inr ()"
    using assms that by (rule insertEmbeddings_vectors)
  show "sr_vector r = model (takeWhile (\<lambda>c. c \<noteq> CHR '';'') texts)"
    if "Search r \<in> set (log (snd (searchMilvus env texts userId options w)))
            \<and> Search r \<notin> set (log w)" for r
    using that searchMilvus_vector_of_prefix[OF assms] by blast
  show "length (takeWhile (\<lambda>c. c \<noteq> CHR '';'') texts) < length texts"
    if "CHR '';'' \<in> set texts"
    using that by (rule takeWhile_shorter)
qed

theorem getEmbeddings_first_segment_only_witness:
  "getEmbeddings example_env ''alpha;beta'' world0 =
       (Inr (Some [5]), tick (Predict [''alpha'', ''beta'']) world0)
   \<and> chunks (snd (insertEmbeddings example_env
          [\<lparr>pageContent = ''First part; second part.'', chunk_id = 0\<rparr>,
           \<lparr>pageContent = ''No semicolon here.'', chunk_id = 1\<rparr>,
           \<lparr>pageContent = ''a;b;c'', chunk_id = 2\<rparr>] tenant_uuid
          \<lparr>im_subjectId = None, im_dataSourceId = source_uuid\<rparr> world0))
       = [\<lparr>e_text = ''First part; second part.'', e_embedding = [10], e_chunk_id = 0,
           e_meta_subjectId = None, e_meta_dataSourceId = source_uuid,
           user_id = tenant_uuid, subject_id = [], data_source_id = source_uuid\<rparr>,
          \<lparr>e_text = ''No semicolon here.'', e_embedding = [18], e_chunk_id = 1,
           e_meta_subjectId = None, e_meta_dataSourceId = source_uuid,
           user_id = tenant_uuid, subject_id = [], data_source_id = source_uuid\<rparr>,
          \<lparr>e_text = ''a;b;c'', e_embedding = [1], e_chunk_id = 2,
           e_meta_subjectId = None, e_meta_dataSourceId = source_uuid,
           user_id = tenant_uuid, subject_id = [], data_source_id = source_uuid\<rparr>]
   \<and> Search \<lparr>sr_vector = [5], sr_limit = 3, sr_filter = ''user_id == '' @ dq @ tenant_uuid @ dq\<rparr>
       \<in> set (log (snd (searchMilvus example_env ''alpha;beta'' tenant_uuid
            \<lparr>topK = Some 3, subjectId = None, dataSourceIds = None\<rparr> world0)))
   \<and> length (takeWhile (\<lambda>c. c \<noteq> CHR '';'') ''alpha;beta'') < length ''alpha;beta''"
proof -
  have per_instance: "\<forall>n instances. predict_r example_env n instances
      = Inr (map (\<lambda>s. [int (length s)]) instances)"
    by (simp add: example_env_def)
  have inserts: "\<forall>n e. insert_r example_env n e = Inr ()"
    by (simp add: example_env_def)
  have issued: "Search \<lparr>sr_vector = [5], sr_limit = 3, sr_filter = ''user_id == '' @ dq @ tenant_uuid @ dq\<rparr>
       \<in> set (log (snd (searchMilvus example_env ''alpha;beta'' tenant_uuid
            \<lparr>topK = Some 3, subjectId = None, dataSourceIds = None\<rparr> world0)))"
    by (simp add: searchMilvus.simps io_defs prim_defs search_defs example_defs)
  have semicolon: "CHR '';'' \<in> set ''alpha;beta''"
    by simp
  from getEmbeddings_first_segment_only [OF per_instance, of "''alpha;beta''" world0
      "[\<lparr>pageContent = ''First part; second part.'', chunk_id = 0\<rparr>,
        \<lparr>pageContent = ''No semicolon here.'', chunk_id = 1\<rparr>,
        \<lparr>pageContent = ''a;b;c'', chunk_id = 2\<rparr>]" tenant_uuid
      "\<lparr>im_subjectId = None, im_dataSourceId = source_uuid\<rparr>"
      "\<lparr>topK = Some 3, subjectId = None, dataSourceIds = None\<rparr>"] inserts issued semicolon
  show ?thesis
    by (simp add: make_entity_def world0_def)
qed

end
